theory Spec2Isabelle
  imports Complex_Main "HOL-Library.Sublist"
begin

section \<open>Numbers and bars\<close>

text \<open>
  A JavaScript \<open>number\<close> is modelled by a real, or by \<open>NaN\<close>. Rounding of IEEE doubles is
  not modelled, and neither are the infinities: with a period that is a natural number, the
  only division by zero in the indicator functions is \<open>0 / 0\<close> at period 0 (or a division
  of a value that is \<open>NaN\<close> already), which JavaScript evaluates to \<open>NaN\<close>.
  An array of \<open>number | null\<close> is a list of \<open>jsnum option\<close>, \<open>None\<close> being \<open>null\<close>.
\<close>

datatype jsnum = Num real | NaN

fun jadd :: "jsnum \<Rightarrow> jsnum \<Rightarrow> jsnum" where
  "jadd (Num a) (Num b) = Num (a + b)"
| "jadd _ _ = NaN"

fun jsub :: "jsnum \<Rightarrow> jsnum \<Rightarrow> jsnum" where
  "jsub (Num a) (Num b) = Num (a - b)"
| "jsub _ _ = NaN"

fun jmul :: "jsnum \<Rightarrow> jsnum \<Rightarrow> jsnum" where
  "jmul (Num a) (Num b) = Num (a * b)"
| "jmul _ _ = NaN"

fun jdiv :: "jsnum \<Rightarrow> jsnum \<Rightarrow> jsnum" where
  "jdiv (Num a) (Num b) = (if b = 0 then NaN else Num (a / b))"
| "jdiv _ _ = NaN"

fun jsqrt :: "jsnum \<Rightarrow> jsnum" where
  "jsqrt (Num a) = (if a < 0 then NaN else Num (sqrt a))"
| "jsqrt NaN = NaN"

text \<open>
  \<open>x as number\<close> is a cast of TypeScript with no effect at run time; where the value is
  \<open>null\<close>, the arithmetic that follows converts it to 0.
\<close>

fun asNumber :: "jsnum option \<Rightarrow> jsnum" where
  "asNumber None = Num 0"
| "asNumber (Some v) = v"

text \<open>Reading a \<open>number[]\<close> out of range gives \<open>undefined\<close>, which arithmetic turns into \<open>NaN\<close>.\<close>

definition nthNum :: "jsnum list \<Rightarrow> nat \<Rightarrow> jsnum" where
  "nthNum xs i = (if i < length xs then xs ! i else NaN)"

text \<open>
  A bar: the date and the numeric fields of \<open>StockData\<close>. The indicator functions read
  \<open>close\<close> only.
\<close>

record StockData =
  date :: string
  openPrice :: real
  high :: real
  low :: real
  close :: real
  volume :: real
  turnoverValue :: real

section \<open>Simple moving average\<close>

text \<open>
  The inner loop of \<open>calculateSMA\<close> and \<open>calculateBollingerBands\<close> visits
  \<open>data[i - j]\<close> for \<open>j = 0, ..., period - 1\<close>. It is only entered when
  \<open>i \<ge> period - 1\<close>, so every read is in range.
\<close>

definition calculateSMA :: "StockData list \<Rightarrow> nat \<Rightarrow> jsnum option list" where
  "calculateSMA data period =
     map (\<lambda>i. if int i < int period - 1 then None
              else (let sum = foldl (\<lambda>sum j. sum + close (data ! (i - j))) 0 [0..<period]
                    in Some (jdiv (Num sum) (Num (real period)))))
         [0..<length data]"

section \<open>Bollinger bands\<close>

record BollingerBands =
  upper :: "jsnum option list"
  middle :: "jsnum option list"
  lower :: "jsnum option list"

text \<open>
  One round of the loop of \<open>calculateBollingerBands\<close>: the pair pushed onto \<open>upper\<close> and
  \<open>lower\<close> at index \<open>i\<close>. \<open>Math.pow(x, 2)\<close> is \<open>x * x\<close>.
\<close>

definition bandsAt ::
  "StockData list \<Rightarrow> nat \<Rightarrow> real \<Rightarrow> jsnum option list \<Rightarrow> nat \<Rightarrow> jsnum option \<times> jsnum option"
where
  "bandsAt data period stdDev sma i =
     (if int i < int period - 1 then (None, None)
      else (let sum = foldl (\<lambda>sum j.
                        (let middleValue = asNumber (sma ! i);
                             d = jsub (Num (close (data ! (i - j)))) middleValue
                         in jadd sum (jmul d d)))
                      (Num 0) [0..<period];
                std = jsqrt (jdiv sum (Num (real period)))
            in (Some (jadd (asNumber (sma ! i)) (jmul (Num stdDev) std)),
                Some (jsub (asNumber (sma ! i)) (jmul (Num stdDev) std)))))"

definition calculateBollingerBands :: "StockData list \<Rightarrow> nat \<Rightarrow> real \<Rightarrow> BollingerBands" where
  "calculateBollingerBands data period stdDev =
     (let sma = calculateSMA data period;
          bands = map (bandsAt data period stdDev sma) [0..<length data]
      in \<lparr>upper = map fst bands, middle = sma, lower = map snd bands\<rparr>)"

section \<open>Relative strength index\<close>

text \<open>The close-to-close changes: \<open>changes[i - 1] = data[i].close - data[i - 1].close\<close>.\<close>

definition priceChanges :: "StockData list \<Rightarrow> real list" where
  "priceChanges data = map (\<lambda>i. close (data ! i) - close (data ! (i - 1))) [1..<length data]"

text \<open>
  \<open>rs = avgGain / (avgLoss === 0 ? 0.001 : avgLoss); currentRsi = 100 - 100 / (1 + rs)\<close>,
  which the source writes once for the first value and once in the loop.
\<close>

definition currentRsi :: "jsnum \<Rightarrow> jsnum \<Rightarrow> jsnum" where
  "currentRsi avgGain avgLoss =
     (let rs = jdiv avgGain (if avgLoss = Num 0 then Num 0.001 else avgLoss)
      in jsub (Num 100) (jdiv (Num 100) (jadd (Num 1) rs)))"

text \<open>The seeding loop: the sums of the gains and of the losses of the first \<open>period\<close> changes.\<close>

definition seedSums :: "real list \<Rightarrow> nat \<Rightarrow> real \<times> real" where
  "seedSums changes period =
     foldl (\<lambda>(avgGain, avgLoss) i.
              if changes ! i > 0 then (avgGain + changes ! i, avgLoss)
              else (avgGain, avgLoss + \<bar>changes ! i\<bar>))
           (0, 0) [0..<period]"

text \<open>The smoothing loop, over \<open>changes[period], changes[period + 1], ...\<close>.\<close>

fun rsiLoop :: "nat \<Rightarrow> jsnum \<Rightarrow> jsnum \<Rightarrow> real list \<Rightarrow> jsnum option list" where
  "rsiLoop period avgGain avgLoss [] = []"
| "rsiLoop period avgGain avgLoss (change # rest) =
     (let gain = (if change > 0 then change else 0);
          loss = (if change < 0 then \<bar>change\<bar> else 0);
          avgGain' = jdiv (jadd (jmul avgGain (Num (real period - 1))) (Num gain)) (Num (real period));
          avgLoss' = jdiv (jadd (jmul avgLoss (Num (real period - 1))) (Num loss)) (Num (real period))
      in Some (currentRsi avgGain' avgLoss') # rsiLoop period avgGain' avgLoss' rest)"

definition calculateRSI :: "StockData list \<Rightarrow> nat \<Rightarrow> jsnum option list" where
  "calculateRSI data period =
     (if length data \<le> period then map (\<lambda>_. None) data
      else (let changes = priceChanges data;
                nulls = replicate period None;
                (sumGain, sumLoss) = seedSums changes period;
                avgGain = jdiv (Num sumGain) (Num (real period));
                avgLoss = jdiv (Num sumLoss) (Num (real period))
            in nulls @ Some (currentRsi avgGain avgLoss)
                 # rsiLoop period avgGain avgLoss (drop period changes)))"

section \<open>MACD\<close>

text \<open>
  \<open>calculateEMA\<close>: \<open>period\<close> nulls are pushed while the first \<open>period\<close> prices are summed
  (a price read out of range is \<open>undefined\<close> and makes the sum \<open>NaN\<close>), the entry at
  \<open>period - 1\<close> is overwritten by the seed \<open>sum / period\<close>, and the recurrence runs over the
  remaining prices. With \<open>period = 0\<close> the assignment to \<open>ema[-1]\<close> adds no element, and
  the recurrence then starts from that value, which is \<open>0 / 0\<close>.
\<close>

fun emaLoop :: "real \<Rightarrow> jsnum \<Rightarrow> jsnum list \<Rightarrow> jsnum option list" where
  "emaLoop multiplier prev [] = []"
| "emaLoop multiplier prev (p # rest) =
     (let e = jadd (jmul (jsub p prev) (Num multiplier)) prev
      in Some e # emaLoop multiplier e rest)"

definition calculateEMA :: "jsnum list \<Rightarrow> nat \<Rightarrow> jsnum option list" where
  "calculateEMA prices period =
     (let multiplier = 2 / (real period + 1);
          sum = foldl (\<lambda>sum i. jadd sum (nthNum prices i)) (Num 0) [0..<period];
          seed = jdiv sum (Num (real period))
      in (replicate period None)[period - 1 := Some seed]
           @ emaLoop multiplier seed (drop period prices))"

record MACD =
  macdLine :: "jsnum option list"
  signalLine :: "jsnum option list"
  histogram :: "jsnum option list"

definition macdLineOf :: "jsnum option list \<Rightarrow> jsnum option list \<Rightarrow> nat \<Rightarrow> nat \<Rightarrow> jsnum option list" where
  "macdLineOf fastEMA slowEMA slowPeriod n =
     map (\<lambda>i. if int i < int slowPeriod - 1 then None
              else (case (fastEMA ! i, slowEMA ! i) of
                      (Some fastValue, Some slowValue) \<Rightarrow> Some (jsub fastValue slowValue)
                    | _ \<Rightarrow> None))
         [0..<n]"

text \<open>\<open>macdLineValues\<close>: the non-null entries of the MACD line, in order.\<close>

definition macdLineValues :: "jsnum option list \<Rightarrow> jsnum list" where
  "macdLineValues line = concat (map (\<lambda>m. case m of None \<Rightarrow> [] | Some v \<Rightarrow> [v]) line)"

text \<open>
  The alignment loop, with its counter \<open>signalIndex\<close>. The read of \<open>signalEMA\<close> is at
  \<open>signalIndex - (signalPeriod - 1)\<close>; it is out of range only when \<open>signalPeriod = 0\<close>,
  where the entry pushed is \<open>undefined\<close>: it is not null, and the subtraction of the
  histogram makes it \<open>NaN\<close>, which is what the model writes.
\<close>

fun alignSignal :: "jsnum option list \<Rightarrow> nat \<Rightarrow> nat \<Rightarrow> jsnum option list \<Rightarrow> jsnum option list" where
  "alignSignal signalEMA signalPeriod signalIndex [] = []"
| "alignSignal signalEMA signalPeriod signalIndex (None # rest) =
     None # alignSignal signalEMA signalPeriod signalIndex rest"
| "alignSignal signalEMA signalPeriod signalIndex (Some m # rest) =
     (if int signalIndex < int signalPeriod - 1 then None
      else (let k = nat (int signalIndex - (int signalPeriod - 1))
            in if k < length signalEMA then signalEMA ! k else Some NaN))
     # alignSignal signalEMA signalPeriod (signalIndex + 1) rest"

definition histogramOf :: "jsnum option list \<Rightarrow> jsnum option list \<Rightarrow> jsnum option list" where
  "histogramOf macd signal =
     map (\<lambda>i. case (macd ! i, signal ! i) of
                 (Some m, Some s) \<Rightarrow> Some (jsub m s)
               | _ \<Rightarrow> None)
         [0..<length macd]"

definition calculateMACD :: "StockData list \<Rightarrow> nat \<Rightarrow> nat \<Rightarrow> nat \<Rightarrow> MACD" where
  "calculateMACD data fastPeriod slowPeriod signalPeriod =
     (let closePrices = map (\<lambda>d. Num (close d)) data;
          fastEMA = calculateEMA closePrices fastPeriod;
          slowEMA = calculateEMA closePrices slowPeriod;
          macd = macdLineOf fastEMA slowEMA slowPeriod (length closePrices);
          signalEMA = calculateEMA (macdLineValues macd) signalPeriod;
          signal = alignSignal signalEMA signalPeriod 0 macd
      in \<lparr>macdLine = macd, signalLine = signal, histogram = histogramOf macd signal\<rparr>)"

section \<open>The state of the chart interaction hook\<close>

text \<open>
  In the interaction handlers a \<open>number\<close> is a real: pixel coordinates, bar indices and
  prices are finite, and the chart that receives the events has a width and a height that
  are not zero.
\<close>

datatype DrawingMode = trendline | horizontalline

datatype ChartStyleType = candlestick | linestyle | ohlc | area

record Point =
  index :: real
  price :: real

record DrawingLine =
  lineId :: string
  lineType :: DrawingMode
  startIndex :: real
  startPrice :: real
  endIndex :: real
  endPrice :: real
  color :: string

text \<open>
  The \<open>useState\<close> cells of \<open>useChartInteraction\<close>, and \<open>xAxisDomain\<close>, the cell of
  \<open>useStockData\<close> that the hook reads as a prop and writes with \<open>setXAxisDomain\<close>.
  \<open>updateVisibleData\<close> writes \<open>visibleData\<close> only, which no handler reads.
\<close>

record ChartState =
  xAxisDomain :: "(real \<times> real) option"
  isDragging :: bool
  dragStartX :: "real option"
  showCrosshair :: bool
  drawingMode :: "DrawingMode option"
  drawingLines :: "DrawingLine list"
  drawingStart :: "Point option"
  drawingEnd :: "Point option"
  selectedLine :: "string option"
  chartStyle :: ChartStyleType
  showKeyboardShortcuts :: bool

definition initialState :: ChartState where
  "initialState =
     \<lparr>xAxisDomain = None, isDragging = False, dragStartX = None, showCrosshair = True,
      drawingMode = None, drawingLines = [], drawingStart = None, drawingEnd = None,
      selectedLine = None, chartStyle = candlestick, showKeyboardShortcuts = False\<rparr>"

definition lineColors :: "string list" where
  "lineColors = [''#FF5722'', ''#2196F3'', ''#4CAF50'', ''#9C27B0'', ''#E91E63'']"

text \<open>The element \<open>chartRef.current\<close>: its bounding rectangle and its \<open>clientWidth\<close>.\<close>

record ChartElement =
  rectLeft :: real
  rectTop :: real
  rectWidth :: real
  rectHeight :: real
  clientWidth :: real

text \<open>
  A mouse event, with what the handler reads from its surroundings when it runs:
  \<open>chartRef.current\<close> (\<open>None\<close> when the ref is not attached) and \<open>Date.now()\<close>.
\<close>

record MouseEvent =
  clientX :: real
  clientY :: real
  chartRef :: "ChartElement option"
  dateNow :: nat

record WheelEvent =
  deltaY :: real
  offsetX :: real
  targetClientWidth :: real

section \<open>Viewport: reset, wheel zoom\<close>

definition toggleCrosshair :: "ChartState \<Rightarrow> ChartState" where
  "toggleCrosshair s = s\<lparr>showCrosshair := \<not> showCrosshair s\<rparr>"

definition toggleDrawingMode :: "DrawingMode option \<Rightarrow> ChartState \<Rightarrow> ChartState" where
  "toggleDrawingMode m s = s\<lparr>drawingMode := (if drawingMode s = m then None else m)\<rparr>"

definition resetZoom :: "ChartState \<Rightarrow> ChartState" where
  "resetZoom s = s\<lparr>xAxisDomain := None\<rparr>"

definition deleteLine :: "string \<Rightarrow> ChartState \<Rightarrow> ChartState" where
  "deleteLine i s =
     s\<lparr>drawingLines := filter (\<lambda>l. lineId l \<noteq> i) (drawingLines s), selectedLine := None\<rparr>"

text \<open>\<open>n\<close> is \<open>stockData.length\<close> in every handler.\<close>

definition handleWheel :: "nat \<Rightarrow> WheelEvent \<Rightarrow> ChartState \<Rightarrow> ChartState" where
  "handleWheel n e s =
     (if n = 0 then s
      else (let start = (case xAxisDomain s of Some d \<Rightarrow> fst d | None \<Rightarrow> 0);
                end = (case xAxisDomain s of Some d \<Rightarrow> snd d | None \<Rightarrow> real n - 1);
                range = end - start;
                zoomFactor = (if deltaY e > 0 then 1.1 else 0.9);
                newRange = max 5 (min (real n) (range * zoomFactor));
                center = offsetX e / targetClientWidth e;
                newStart = max 0 (start + (range - newRange) * center);
                newEnd = min (real n - 1) (newStart + newRange);
                newStart' = (if newEnd = real n - 1 then max 0 (newEnd - newRange) else newStart)
            in s\<lparr>xAxisDomain := Some (newStart', newEnd)\<rparr>))"

text \<open>
  The computation of \<open>handleWheel\<close> on the domain, with the zoom factor and the anchor
  ratio as parameters: \<open>handleWheel\<close> applies it with the factor 1.1 or 0.9 of its event and
  the ratio \<open>offsetX / clientWidth\<close>.
\<close>

definition zoomStep :: "nat \<Rightarrow> real \<Rightarrow> real \<Rightarrow> (real \<times> real) option \<Rightarrow> real \<times> real" where
  "zoomStep n zoomFactor center d =
     (let start = (case d of Some p \<Rightarrow> fst p | None \<Rightarrow> 0);
          end = (case d of Some p \<Rightarrow> snd p | None \<Rightarrow> real n - 1);
          range = end - start;
          newRange = max 5 (min (real n) (range * zoomFactor));
          newStart = max 0 (start + (range - newRange) * center);
          newEnd = min (real n - 1) (newStart + newRange);
          newStart' = (if newEnd = real n - 1 then max 0 (newEnd - newRange) else newStart)
      in (newStart', newEnd))"

section \<open>Pointer handlers\<close>

text \<open>
  The conversion of a pointer position to a data point, which \<open>handleMouseDown\<close> and
  \<open>handleMouseMove\<close> both write out. \<open>Math.round x\<close> is \<open>\<lfloor>x + 1/2\<rfloor>\<close>, which is
  \<open>round\<close>. The price range is the placeholder of the source, 0 to 1000.
\<close>

definition pixelToData :: "nat \<Rightarrow> ChartState \<Rightarrow> MouseEvent \<Rightarrow> ChartElement \<Rightarrow> Point" where
  "pixelToData n s e el =
     (let relativeX = clientX e - rectLeft el;
          relativeY = clientY e - rectTop el;
          chartWidth = rectWidth el;
          chartHeight = rectHeight el;
          visibleStartIndex = (case xAxisDomain s of Some d \<Rightarrow> real_of_int \<lfloor>fst d\<rfloor> | None \<Rightarrow> 0);
          visibleEndIndex = (case xAxisDomain s of Some d \<Rightarrow> real_of_int \<lceil>snd d\<rceil>
                             | None \<Rightarrow> real n - 1);
          visibleRange = visibleEndIndex - visibleStartIndex;
          indexPosition = visibleStartIndex + (relativeX / chartWidth) * visibleRange;
          indexRounded = real_of_int (round indexPosition);
          minPrice = 0;
          maxPrice = 1000;
          priceRange = maxPrice - minPrice;
          p = maxPrice - (relativeY / chartHeight) * priceRange
      in \<lparr>index = indexRounded, price = p\<rparr>)"

definition handleMouseDown :: "nat \<Rightarrow> MouseEvent \<Rightarrow> ChartState \<Rightarrow> ChartState" where
  "handleMouseDown n e s =
     (if drawingMode s \<noteq> None then
        (case chartRef e of
           None \<Rightarrow> s
         | Some el \<Rightarrow> s\<lparr>drawingStart := Some (pixelToData n s e el), drawingEnd := None\<rparr>)
      else s\<lparr>isDragging := True, dragStartX := Some (clientX e)\<rparr>)"

text \<open>
  The pan of a drag. \<open>chartRef.current?.clientWidth || 1\<close> is 1 when the ref is not
  attached and when the width is 0.
\<close>

definition dragPan :: "nat \<Rightarrow> MouseEvent \<Rightarrow> real \<Rightarrow> real \<times> real \<Rightarrow> real \<times> real" where
  "dragPan n e startX d =
     (let chartWidth = (case chartRef e of None \<Rightarrow> 1
                        | Some el \<Rightarrow> if clientWidth el = 0 then 1 else clientWidth el);
          moveRatio = (startX - clientX e) / chartWidth;
          domainRange = snd d - fst d;
          moveDelta = moveRatio * domainRange;
          newStart = max 0 (fst d + moveDelta);
          newEnd = min (real n - 1) (snd d + moveDelta)
      in if newStart = 0 then (newStart, min (real n - 1) (newStart + domainRange))
         else if newEnd = real n - 1 then (max 0 (newEnd - domainRange), newEnd)
         else (newStart, newEnd))"

definition handleMouseMove :: "nat \<Rightarrow> MouseEvent \<Rightarrow> ChartState \<Rightarrow> ChartState" where
  "handleMouseMove n e s =
     (case (drawingMode s, drawingStart s) of
        (Some m, Some st) \<Rightarrow>
          (case chartRef e of
             None \<Rightarrow> s
           | Some el \<Rightarrow>
               (let pt = pixelToData n s e el
                in if m = horizontalline
                   then s\<lparr>drawingEnd := Some \<lparr>index = index pt, price = price st\<rparr>\<rparr>
                   else s\<lparr>drawingEnd := Some \<lparr>index = index pt, price = price pt\<rparr>\<rparr>))
      | _ \<Rightarrow>
          (case (isDragging s, dragStartX s, xAxisDomain s) of
             (True, Some startX, Some d) \<Rightarrow>
               s\<lparr>xAxisDomain := Some (dragPan n e startX d), dragStartX := Some (clientX e)\<rparr>
           | _ \<Rightarrow> s))"

text \<open>The decimal digits of \<open>Date.now()\<close>, for the template string that makes the id.\<close>

fun decimal :: "nat \<Rightarrow> string" where
  "decimal k = (if k < 10 then [''0123456789'' ! k]
                else decimal (k div 10) @ [''0123456789'' ! (k mod 10)])"

definition handleMouseUp :: "nat \<Rightarrow> MouseEvent \<Rightarrow> ChartState \<Rightarrow> ChartState" where
  "handleMouseUp n e s =
     (case (drawingMode s, drawingStart s, drawingEnd s) of
        (Some m, Some st, Some en) \<Rightarrow>
          (let newLine = \<lparr>lineId = ''line-'' @ decimal (dateNow e), lineType = m,
                          startIndex = index st, startPrice = price st,
                          endIndex = index en, endPrice = price en,
                          color = lineColors ! (length (drawingLines s) mod length lineColors)\<rparr>
           in s\<lparr>drawingLines := drawingLines s @ [newLine],
                drawingStart := None, drawingEnd := None\<rparr>)
      | _ \<Rightarrow> s\<lparr>isDragging := False, dragStartX := None\<rparr>)"

section \<open>Keyboard handler\<close>

definition handleKeyDown :: "nat \<Rightarrow> string \<Rightarrow> ChartState \<Rightarrow> ChartState" where
  "handleKeyDown n key s =
     (if key = ''ArrowLeft'' then
        (case xAxisDomain s of
           None \<Rightarrow> s
         | Some d \<Rightarrow>
             (let domainRange = snd d - fst d;
                  panAmount = domainRange * 0.1;
                  newStart = max 0 (fst d - panAmount);
                  newEnd = newStart + domainRange
              in if newEnd \<le> real n - 1 then s\<lparr>xAxisDomain := Some (newStart, newEnd)\<rparr> else s))
      else if key = ''ArrowRight'' then
        (case xAxisDomain s of
           None \<Rightarrow> s
         | Some d \<Rightarrow>
             (let domainRange = snd d - fst d;
                  panAmount = domainRange * 0.1;
                  newEnd = min (real n - 1) (snd d + panAmount);
                  newStart = newEnd - domainRange
              in if newStart \<ge> 0 then s\<lparr>xAxisDomain := Some (newStart, newEnd)\<rparr> else s))
      else if key = ''+'' \<or> key = ''='' then
        (case xAxisDomain s of
           None \<Rightarrow> s
         | Some d \<Rightarrow>
             (let start = fst d;
                  end = snd d;
                  range = end - start;
                  newRange = range * 0.8;
                  center = (start + end) / 2;
                  newStart = max 0 (center - newRange / 2);
                  newEnd = min (real n - 1) (center + newRange / 2)
              in s\<lparr>xAxisDomain := Some (newStart, newEnd)\<rparr>))
      else if key = ''-'' \<or> key = ''_'' then
        (case xAxisDomain s of
           None \<Rightarrow> s
         | Some d \<Rightarrow>
             (let start = fst d;
                  end = snd d;
                  range = end - start;
                  newRange = range * 1.2;
                  center = (start + end) / 2;
                  newStart = max 0 (center - newRange / 2);
                  newEnd = min (real n - 1) (center + newRange / 2)
              in s\<lparr>xAxisDomain := Some (newStart, newEnd)\<rparr>))
      else if key = ''Escape'' then (resetZoom s)\<lparr>drawingMode := None\<rparr>
      else if key = ''c'' then toggleCrosshair s
      else if key = ''t'' then
        toggleDrawingMode (if drawingMode s = Some trendline then None else Some trendline) s
      else if key = ''h'' then
        toggleDrawingMode (if drawingMode s = Some horizontalline then None else Some horizontalline) s
      else if key = ''1'' then s\<lparr>chartStyle := candlestick\<rparr>
      else if key = ''2'' then s\<lparr>chartStyle := ohlc\<rparr>
      else if key = ''3'' then s\<lparr>chartStyle := linestyle\<rparr>
      else if key = ''4'' then s\<lparr>chartStyle := area\<rparr>
      else if key = ''?'' then s\<lparr>showKeyboardShortcuts := \<not> showKeyboardShortcuts s\<rparr>
      else s)"

section \<open>Sequences of pointer events\<close>

datatype PointerEvent = PointerDown MouseEvent | PointerMove MouseEvent | PointerUp MouseEvent

fun pointerStep :: "nat \<Rightarrow> ChartState \<Rightarrow> PointerEvent \<Rightarrow> ChartState" where
  "pointerStep n s (PointerDown e) = handleMouseDown n e s"
| "pointerStep n s (PointerMove e) = handleMouseMove n e s"
| "pointerStep n s (PointerUp e) = handleMouseUp n e s"

definition runPointer :: "nat \<Rightarrow> ChartState \<Rightarrow> PointerEvent list \<Rightarrow> ChartState" where
  "runPointer n s es = foldl (pointerStep n) s es"

text \<open>
  The committed horizontal lines are level, and so is the line in progress: its end point,
  when there is one, has the price of its start point.
\<close>

definition horizontalsLevel :: "ChartState \<Rightarrow> bool" where
  "horizontalsLevel s =
     (list_all (\<lambda>l. lineType l \<noteq> horizontalline \<or> startPrice l = endPrice l) (drawingLines s)
      \<and> (case (drawingStart s, drawingEnd s) of
            (Some st, Some en) \<Rightarrow> price st = price en
          | _ \<Rightarrow> True))"

section \<open>The viewport domain and its invariant\<close>

text \<open>An unset domain stands for the full range, as \<open>handleWheel\<close> reads it.\<close>

definition domainBounds :: "nat \<Rightarrow> (real \<times> real) option \<Rightarrow> real \<times> real" where
  "domainBounds n d = (case d of None \<Rightarrow> (0, real n - 1) | Some p \<Rightarrow> p)"

definition domainWidth :: "nat \<Rightarrow> (real \<times> real) option \<Rightarrow> real" where
  "domainWidth n d = snd (domainBounds n d) - fst (domainBounds n d)"

definition domainInRange :: "nat \<Rightarrow> (real \<times> real) option \<Rightarrow> bool" where
  "domainInRange n d =
     (0 \<le> fst (domainBounds n d) \<and> fst (domainBounds n d) \<le> snd (domainBounds n d)
      \<and> snd (domainBounds n d) \<le> real n - 1)"

definition domainInv :: "nat \<Rightarrow> (real \<times> real) option \<Rightarrow> bool" where
  "domainInv n d = (domainInRange n d \<and> 5 \<le> domainWidth n d)"

section \<open>Terms of the specification\<close>

text \<open>The trailing window of \<open>p\<close> closes that ends at index \<open>i\<close> (inclusive), and the mean.\<close>

definition window :: "StockData list \<Rightarrow> nat \<Rightarrow> nat \<Rightarrow> real list" where
  "window data p i = map close (take p (drop (Suc i - p) data))"

definition mean :: "real list \<Rightarrow> real" where
  "mean xs = sum_list xs / real (length xs)"

text \<open>The population standard deviation: the squared deviations are divided by the count.\<close>

definition popStdDev :: "real list \<Rightarrow> real" where
  "popStdDev xs = sqrt (sum_list (map (\<lambda>x. (x - mean xs)\<^sup>2) xs) / real (length xs))"

text \<open>
  The close-to-close changes of a bar sequence: for each bar after the first, its close
  minus the close of the bar before it.
\<close>

definition closeToCloseChanges :: "StockData list \<Rightarrow> real list" where
  "closeToCloseChanges data =
     map (\<lambda>(before, this). this - before) (zip (map close data) (tl (map close data)))"

text \<open>The gain and the loss of a close-to-close change.\<close>

definition gainOf :: "real \<Rightarrow> real" where
  "gainOf c = (if c > 0 then c else 0)"

definition lossOf :: "real \<Rightarrow> real" where
  "lossOf c = (if c < 0 then \<bar>c\<bar> else 0)"

text \<open>
  Wilder's average of a series \<open>xs\<close> of gains or of losses, \<open>k\<close> steps after the seed: the
  seed is the simple mean of the first \<open>p\<close> entries, and each step is
  \<open>avg = (avg * (p - 1) + current) / p\<close>.
\<close>

fun wilderAvg :: "nat \<Rightarrow> real list \<Rightarrow> nat \<Rightarrow> real" where
  "wilderAvg p xs 0 = mean (take p xs)"
| "wilderAvg p xs (Suc k) = (wilderAvg p xs k * (real p - 1) + xs ! (p + k)) / real p"

text \<open>\<open>RSI = 100 - 100 / (1 + RS)\<close>, with \<open>RS = avgGain / avgLoss\<close> and 0.001 for a zero \<open>avgLoss\<close>.\<close>

definition rsiValue :: "real \<Rightarrow> real \<Rightarrow> real" where
  "rsiValue avgGain avgLoss =
     100 - 100 / (1 + avgGain / (if avgLoss = 0 then 0.001 else avgLoss))"

text \<open>
  A zoom step by a factor at an anchor ratio is away from the clamping boundaries when the
  scaled width stays within 5 and the bar count, the new start is not below 0 and the new
  end is not above the last index.
\<close>

definition zoomUnclamped :: "nat \<Rightarrow> real \<Rightarrow> real \<Rightarrow> (real \<times> real) option \<Rightarrow> bool" where
  "zoomUnclamped n factor center d =
     (let start = fst (domainBounds n d);
          range = domainWidth n d;
          newRange = range * factor;
          newStart = start + (range - newRange) * center
      in 5 \<le> newRange \<and> newRange \<le> real n \<and> 0 \<le> newStart \<and> newStart + newRange \<le> real n - 1)"

section \<open>Example inputs\<close>

definition bar :: "real \<Rightarrow> StockData" where
  "bar c = \<lparr>date = [], openPrice = c, high = c, low = c, close = c, volume = 0,
            turnoverValue = 0\<rparr>"

text \<open>Twenty-five ascending daily bars, with closes 1, 2, ..., 25.\<close>

definition ascendingBars :: "StockData list" where
  "ascendingBars = map (\<lambda>k. bar (real k)) [1..<26]"

definition fiveBars :: "StockData list" where
  "fiveBars = map bar [1, 2, 3, 2, 5]"

text \<open>
  Five bars with the closes 1, 2, 3, 2, 5, whose opens, highs and lows move differently
  from their closes.
\<close>

definition barOHLC :: "real \<Rightarrow> real \<Rightarrow> real \<Rightarrow> real \<Rightarrow> StockData" where
  "barOHLC po ph pl pc = \<lparr>date = [], openPrice = po, high = ph, low = pl, close = pc,
                          volume = 100, turnoverValue = 100 * pc\<rparr>"

definition tradedBars :: "StockData list" where
  "tradedBars = [barOHLC 9 10 0 1, barOHLC 4 6 1 2, barOHLC 1 8 1 3, barOHLC 7 7 2 2,
                 barOHLC 2 9 2 5]"

definition twoBars :: "StockData list" where
  "twoBars = map bar [1, 3]"

definition doublingBars :: "StockData list" where
  "doublingBars = map bar [2, 4, 8, 16]"

text \<open>A chart of 100 by 100 pixels at the origin, and pointer events on it.\<close>

definition chartEl :: ChartElement where
  "chartEl = \<lparr>rectLeft = 0, rectTop = 0, rectWidth = 100, rectHeight = 100, clientWidth = 100\<rparr>"

definition mouseAt :: "real \<Rightarrow> real \<Rightarrow> MouseEvent" where
  "mouseAt x y = \<lparr>clientX = x, clientY = y, chartRef = Some chartEl, dateNow = 7\<rparr>"

definition wheelIn :: WheelEvent where
  "wheelIn = \<lparr>deltaY = - 100, offsetX = 50, targetClientWidth = 100\<rparr>"

definition wheelOut :: WheelEvent where
  "wheelOut = \<lparr>deltaY = 100, offsetX = 50, targetClientWidth = 100\<rparr>"

definition wheelInLeft :: WheelEvent where
  "wheelInLeft = \<lparr>deltaY = - 100, offsetX = 0, targetClientWidth = 100\<rparr>"

definition zoomed :: ChartState where
  "zoomed = initialState\<lparr>xAxisDomain := Some (50, 150)\<rparr>"

text \<open>Two committed lines, the second of which is selected.\<close>

definition lineWithId :: "string \<Rightarrow> DrawingMode \<Rightarrow> DrawingLine" where
  "lineWithId k m =
     \<lparr>lineId = k, lineType = m, startIndex = 1, startPrice = 500, endIndex = 5,
      endPrice = 500, color = ''#FF5722''\<rparr>"

definition twoLines :: ChartState where
  "twoLines =
     initialState\<lparr>drawingLines := [lineWithId ''line-1'' trendline,
                                      lineWithId ''line-2'' horizontalline],
                    selectedLine := Some ''line-2''\<rparr>"

text \<open>
  A trendline in progress: \<open>t\<close> is pressed, the pointer goes down at pixel (10, 50) and
  moves to pixel (50, 75).
\<close>

definition midDrawing :: ChartState where
  "midDrawing =
     handleMouseMove 10 (mouseAt 50 75)
       (handleMouseDown 10 (mouseAt 10 50) (handleKeyDown 10 ''t'' initialState))"

section \<open>The simple moving average is the mean of the trailing window\<close>

lemma foldl_plus_sum_list:
  "foldl (\<lambda>s j. s + f j) a js = a + sum_list (map f js)"
  for a :: real
  by (induction js arbitrary: a) simp_all

lemma trailing_reads_are_window:
  assumes "p - 1 \<le> i" and "i < length data" and "0 < p"
  shows "map (\<lambda>j. close (data ! (i - j))) [0..<p] = rev (window data p i)"
proof (rule nth_equalityI)
  show len: "length (map (\<lambda>j. close (data ! (i - j))) [0..<p]) = length (rev (window data p i))"
    using assms by (simp add: window_def)
  fix j
  assume "j < length (map (\<lambda>j. close (data ! (i - j))) [0..<p])"
  then have j: "j < p" by simp
  have "rev (window data p i) ! j = window data p i ! (p - Suc j)"
    using j len by (simp add: rev_nth)
  also have "\<dots> = close (data ! (Suc i - p + (p - Suc j)))"
    using j assms by (simp add: window_def)
  also have "Suc i - p + (p - Suc j) = i - j"
    using j assms by arith
  finally show "map (\<lambda>j. close (data ! (i - j))) [0..<p] ! j = rev (window data p i) ! j"
    using j by simp
qed

lemma length_window:
  "p - 1 \<le> i \<Longrightarrow> i < length data \<Longrightarrow> 0 < p \<Longrightarrow> length (window data p i) = p"
  by (simp add: window_def)

lemma trailing_sum_is_window_sum:
  assumes "p - 1 \<le> i" and "i < length data" and "0 < p"
  shows "foldl (\<lambda>sum j. sum + close (data ! (i - j))) 0 [0..<p] = sum_list (window data p i)"
proof -
  have "foldl (\<lambda>sum j. sum + close (data ! (i - j))) 0 [0..<p]
        = sum_list (map (\<lambda>j. close (data ! (i - j))) [0..<p])"
    by (simp add: foldl_plus_sum_list)
  also have "\<dots> = sum_list (rev (window data p i))"
    using trailing_reads_are_window [OF assms] by simp
  finally show ?thesis by (simp add: rev_map [symmetric] sum_list_rev)
qed

lemma calculateSMA_length: "length (calculateSMA data period) = length data"
  by (simp add: calculateSMA_def)

lemma calculateSMA_nth_null:
  "i < length data \<Longrightarrow> int i < int p - 1 \<Longrightarrow> calculateSMA data p ! i = None"
  by (simp add: calculateSMA_def)

lemma calculateSMA_nth_mean:
  assumes "p - 1 \<le> i" and "i < length data" and "0 < p"
  shows "calculateSMA data p ! i = Some (Num (mean (window data p i)))"
proof -
  have "\<not> int i < int p - 1" using assms by linarith
  then show ?thesis
    using assms trailing_sum_is_window_sum [OF assms] length_window [OF assms]
    by (simp add: calculateSMA_def mean_def)
qed

text \<open>
  C4. For every bar sequence and every period \<open>p \<ge> 1\<close>, \<open>calculateSMA\<close> returns an array as
  long as the bars; its entry at index \<open>i\<close> is null exactly when \<open>i < p - 1\<close>, and is
  otherwise the arithmetic mean of the closes of the \<open>p\<close> bars that end at \<open>i\<close>.
\<close>

theorem calculateSMA_trailing_mean:
  "1 \<le> p \<Longrightarrow>
     length (calculateSMA data p) = length data \<and>
     (i < length data \<longrightarrow>
        ((calculateSMA data p ! i = None) = (i < p - 1)) \<and>
        (p - 1 \<le> i \<longrightarrow> calculateSMA data p ! i = Some (Num (mean (window data p i)))))"
proof (intro conjI impI)
  show "length (calculateSMA data p) = length data"
    by (rule calculateSMA_length)
next
  assume p: "1 \<le> p" and i: "i < length data"
  show "(calculateSMA data p ! i = None) = (i < p - 1)"
  proof (cases "i < p - 1")
    case True
    then have "int i < int p - 1" by linarith
    with i True show ?thesis by (simp add: calculateSMA_nth_null)
  next
    case False
    then have "p - 1 \<le> i" by simp
    with i p False show ?thesis by (simp add: calculateSMA_nth_mean)
  qed
next
  assume "1 \<le> p" and "i < length data" and "p - 1 \<le> i"
  then show "calculateSMA data p ! i = Some (Num (mean (window data p i)))"
    by (simp add: calculateSMA_nth_mean)
qed

theorem calculateSMA_trailing_mean_witness:
  "(1::nat) \<le> 20 \<and> length (calculateSMA ascendingBars 20) = 25
   \<and> calculateSMA ascendingBars 20 ! 18 = None
   \<and> calculateSMA ascendingBars 20 ! 19 = Some (Num (21 / 2))"
proof -
  have len: "length ascendingBars = 25" by (simp add: ascendingBars_def)
  have w: "window ascendingBars 20 19 = map real [1..<21]"
    by (simp add: window_def ascendingBars_def bar_def comp_def take_map take_upt)
  have m: "mean (map real [1..<21]) = 21 / 2"
    by (simp add: mean_def upt_rec)
  show ?thesis
    using calculateSMA_trailing_mean [of 20 ascendingBars 18]
      calculateSMA_trailing_mean [of 20 ascendingBars 19] len w m
    by simp
qed

section \<open>Bollinger bands are the mean plus and minus the population deviation\<close>

lemma foldl_jadd_Num:
  "foldl (\<lambda>s j. jadd s (Num (f j))) (Num a) js = Num (a + sum_list (map f js))"
  by (induction js arbitrary: a) simp_all

lemma trailing_map_is_window_map:
  fixes g :: "real \<Rightarrow> real"
  assumes "p - 1 \<le> i" and "i < length data" and "0 < p"
  shows "sum_list (map (\<lambda>j. g (close (data ! (i - j)))) [0..<p]) = sum_list (map g (window data p i))"
proof -
  have "map (\<lambda>j. g (close (data ! (i - j)))) [0..<p] = map g (map (\<lambda>j. close (data ! (i - j))) [0..<p])"
    by simp
  also have "\<dots> = rev (map g (window data p i))"
    using trailing_reads_are_window [OF assms] by (simp add: rev_map)
  finally have "map (\<lambda>j. g (close (data ! (i - j)))) [0..<p] = rev (map g (window data p i))" .
  then show ?thesis by (simp only: sum_list_rev)
qed

lemma bandsAt_defined:
  assumes "p - 1 \<le> i" and "i < length data" and "0 < p"
  shows "bandsAt data p m (calculateSMA data p) i =
           (Some (Num (mean (window data p i) + m * popStdDev (window data p i))),
            Some (Num (mean (window data p i) - m * popStdDev (window data p i))))"
proof -
  let ?w = "window data p i"
  have guard: "\<not> int i < int p - 1" using assms by linarith
  have mid: "calculateSMA data p ! i = Some (Num (mean ?w))"
    using assms by (rule calculateSMA_nth_mean)
  have sq: "foldl (\<lambda>sum j. jadd sum (Num ((close (data ! (i - j)) - mean ?w) * (close (data ! (i - j)) - mean ?w))))
              (Num 0) [0..<p]
            = Num (sum_list (map (\<lambda>x. (x - mean ?w)\<^sup>2) ?w))"
    using trailing_map_is_window_map [OF assms, of "\<lambda>x. (x - mean ?w) * (x - mean ?w)"]
    by (simp add: foldl_jadd_Num power2_eq_square)
  have nonneg: "0 \<le> sum_list (map (\<lambda>x. (x - mean ?w)\<^sup>2) ?w) / real p"
    by (intro divide_nonneg_nonneg sum_list_nonneg) auto
  have len: "length ?w = p" using assms by (rule length_window)
  show ?thesis
    using guard mid sq nonneg len assms(3)
    by (simp add: bandsAt_def Let_def popStdDev_def)
qed

lemma bandsAt_null: "int i < int p - 1 \<Longrightarrow> bandsAt data p m sma i = (None, None)"
  by (simp add: bandsAt_def)

lemma calculateSMA_all_null:
  assumes "length data < p"
  shows "calculateSMA data p = replicate (length data) None"
proof (rule nth_equalityI)
  show "length (calculateSMA data p) = length (replicate (length data) None)"
    by (simp add: calculateSMA_length)
  fix i assume "i < length (calculateSMA data p)"
  then have i: "i < length data" by (simp add: calculateSMA_length)
  then have "int i < int p - 1" using assms by linarith
  with i show "calculateSMA data p ! i = replicate (length data) None ! i"
    by (simp add: calculateSMA_nth_null)
qed

lemma bands_all_null:
  assumes "length data < p"
  shows "map (bandsAt data p m sma) [0..<length data] = replicate (length data) (None, None)"
proof (rule nth_equalityI)
  show "length (map (bandsAt data p m sma) [0..<length data]) = length (replicate (length data) (None :: jsnum option, None :: jsnum option))"
    by simp
  fix i assume "i < length (map (bandsAt data p m sma) [0..<length data])"
  then have i: "i < length data" by simp
  then have "int i < int p - 1" using assms by linarith
  with i show "map (bandsAt data p m sma) [0..<length data] ! i = replicate (length data) (None, None) ! i"
    by (simp add: bandsAt_null)
qed

text \<open>
  C5. For every bar sequence, period \<open>p \<ge> 1\<close> and multiplier \<open>m\<close>, the three arrays of
  \<open>calculateBollingerBands\<close> are as long as the bars and \<open>middle\<close> is \<open>calculateSMA\<close>; at
  every index \<open>i \<ge> p - 1\<close> the upper and lower bands are the mean of the trailing window
  plus and minus \<open>m\<close> times its population standard deviation; with fewer than \<open>p\<close> bars
  the three arrays are entirely null.
\<close>

theorem calculateBollingerBands_population_sd:
  "1 \<le> p \<Longrightarrow>
     middle (calculateBollingerBands data p m) = calculateSMA data p \<and>
     length (upper (calculateBollingerBands data p m)) = length data \<and>
     length (middle (calculateBollingerBands data p m)) = length data \<and>
     length (lower (calculateBollingerBands data p m)) = length data \<and>
     (i < length data \<and> p - 1 \<le> i \<longrightarrow>
        middle (calculateBollingerBands data p m) ! i = Some (Num (mean (window data p i))) \<and>
        upper (calculateBollingerBands data p m) ! i =
          Some (Num (mean (window data p i) + m * popStdDev (window data p i))) \<and>
        lower (calculateBollingerBands data p m) ! i =
          Some (Num (mean (window data p i) - m * popStdDev (window data p i)))) \<and>
     (length data < p \<longrightarrow>
        upper (calculateBollingerBands data p m) = replicate (length data) None \<and>
        middle (calculateBollingerBands data p m) = replicate (length data) None \<and>
        lower (calculateBollingerBands data p m) = replicate (length data) None)"
proof (intro conjI impI)
  assume "length data < p"
  then show "upper (calculateBollingerBands data p m) = replicate (length data) None"
    by (simp add: calculateBollingerBands_def Let_def bands_all_null)
next
  assume "length data < p"
  then show "lower (calculateBollingerBands data p m) = replicate (length data) None"
    by (simp add: calculateBollingerBands_def Let_def bands_all_null)
next
  assume "length data < p"
  then show "middle (calculateBollingerBands data p m) = replicate (length data) None"
    by (simp add: calculateBollingerBands_def Let_def calculateSMA_all_null)
next
  assume "1 \<le> p" and "i < length data \<and> p - 1 \<le> i"
  then show "upper (calculateBollingerBands data p m) ! i =
          Some (Num (mean (window data p i) + m * popStdDev (window data p i)))"
    by (simp add: calculateBollingerBands_def Let_def bandsAt_defined)
next
  assume "1 \<le> p" and "i < length data \<and> p - 1 \<le> i"
  then show "lower (calculateBollingerBands data p m) ! i =
          Some (Num (mean (window data p i) - m * popStdDev (window data p i)))"
    by (simp add: calculateBollingerBands_def Let_def bandsAt_defined)
next
  assume "1 \<le> p" and "i < length data \<and> p - 1 \<le> i"
  then show "middle (calculateBollingerBands data p m) ! i = Some (Num (mean (window data p i)))"
    by (simp add: calculateBollingerBands_def Let_def calculateSMA_nth_mean)
qed (simp_all add: calculateBollingerBands_def Let_def calculateSMA_length)

theorem calculateBollingerBands_population_sd_witness:
  "(1::nat) \<le> 2 \<and> (1::nat) < length twoBars \<and> (2::nat) - 1 \<le> 1 \<and> length twoBars < 3
   \<and> upper (calculateBollingerBands twoBars 2 2) ! 1 = Some (Num 4)
   \<and> lower (calculateBollingerBands twoBars 2 2) ! 1 = Some (Num 0)
   \<and> upper (calculateBollingerBands twoBars 3 2) = [None, None]
   \<and> lower (calculateBollingerBands twoBars 3 2) = [None, None]"
proof -
  have w: "window twoBars 2 1 = [1, 3]"
    by (simp add: window_def twoBars_def bar_def)
  have sd: "popStdDev [1, 3] = 1"
    by (simp add: popStdDev_def mean_def)
  have mn: "mean [1, 3] = 2"
    by (simp add: mean_def)
  have len: "length twoBars = 2" by (simp add: twoBars_def)
  show ?thesis
    using calculateBollingerBands_population_sd [of 2 twoBars 2 1]
      calculateBollingerBands_population_sd [of 3 twoBars 2 0] w sd mn len
    by (simp add: numeral_2_eq_2)
qed

section \<open>The relative strength index follows Wilder's smoothing and stays within 0 and 100\<close>

lemma gainOf_nonneg: "0 \<le> gainOf c"
  by (simp add: gainOf_def)

lemma lossOf_nonneg: "0 \<le> lossOf c"
  by (simp add: lossOf_def)

lemma seedSums_Suc:
  "seedSums cs (Suc p) =
     (fst (seedSums cs p) + gainOf (cs ! p), snd (seedSums cs p) + lossOf (cs ! p))"
  by (cases "seedSums cs p")
     (auto simp add: seedSums_def gainOf_def lossOf_def)

lemma seedSums_sums:
  "p \<le> length cs \<Longrightarrow>
     seedSums cs p = (sum_list (map gainOf (take p cs)), sum_list (map lossOf (take p cs)))"
proof (induction p)
  case 0
  show ?case by (simp add: seedSums_def)
next
  case (Suc p)
  then have "p < length cs" by simp
  then have "take (Suc p) cs = take p cs @ [cs ! p]"
    by (rule take_Suc_conv_app_nth)
  with Suc show ?case by (simp add: seedSums_Suc)
qed

lemma mean_nonneg: "(\<And>x. x \<in> set xs \<Longrightarrow> 0 \<le> x) \<Longrightarrow> 0 \<le> mean xs"
  by (simp add: mean_def sum_list_nonneg)

lemma wilderAvg_nonneg:
  assumes "1 \<le> p" and "\<And>x. x \<in> set xs \<Longrightarrow> 0 \<le> x"
  shows "p + k \<le> length xs \<Longrightarrow> 0 \<le> wilderAvg p xs k"
proof (induction k)
  case 0
  have "\<And>x. x \<in> set (take p xs) \<Longrightarrow> 0 \<le> x"
    using assms(2) by (auto dest: in_set_takeD)
  then show ?case by (simp add: mean_nonneg)
next
  case (Suc k)
  then have "0 \<le> wilderAvg p xs k" and "0 \<le> xs ! (p + k)"
    using assms(2) by simp_all
  moreover have "0 \<le> real p - 1" using assms(1) by simp
  ultimately show ?case by simp
qed

lemma rsiValue_bounds:
  assumes "0 \<le> g" and "0 \<le> l"
  shows "0 \<le> rsiValue g l \<and> rsiValue g l \<le> 100"
proof -
  define d where "d = (if l = 0 then 0.001 else l)"
  have d: "0 < d" using assms by (simp add: d_def)
  have rs: "0 \<le> g / d" using assms d by simp
  then have one: "1 \<le> 1 + g / d" by simp
  then have "100 / (1 + g / d) \<le> 100"
    by (simp add: divide_le_eq)
  moreover have "0 \<le> 100 / (1 + g / d)" using one by simp
  ultimately show ?thesis by (simp add: rsiValue_def d_def)
qed

lemma currentRsi_Num:
  assumes "0 \<le> g" and "0 \<le> l"
  shows "currentRsi (Num g) (Num l) = Num (rsiValue g l)"
proof (cases "l = 0")
  case True
  have "0 \<le> g * 1000" using assms by simp
  then have "1 + g * 1000 \<noteq> 0" by linarith
  with True show ?thesis
    by (simp add: currentRsi_def rsiValue_def Let_def)
next
  case False
  then have "0 < l" using assms by simp
  then have "0 \<le> g / l" using assms by simp
  then have "1 + g / l \<noteq> 0" by linarith
  with False show ?thesis
    by (simp add: currentRsi_def rsiValue_def Let_def)
qed

lemma rsiLoop_step:
  "p \<noteq> 0 \<Longrightarrow>
     rsiLoop p (Num g) (Num l) (c # rest) =
       Some (currentRsi (Num ((g * (real p - 1) + gainOf c) / real p))
                        (Num ((l * (real p - 1) + lossOf c) / real p)))
       # rsiLoop p (Num ((g * (real p - 1) + gainOf c) / real p))
                   (Num ((l * (real p - 1) + lossOf c) / real p)) rest"
  by (simp add: Let_def gainOf_def lossOf_def)

lemma length_rsiLoop: "length (rsiLoop p g l cs) = length cs"
  by (induction cs arbitrary: g l) (simp_all add: Let_def)

lemma length_priceChanges: "length (priceChanges data) = length data - 1"
  by (simp add: priceChanges_def)

text \<open>
  The smoothing loop, started from Wilder's averages after \<open>j\<close> steps, yields at position
  \<open>k\<close> the RSI of the averages after \<open>j + k + 1\<close> steps.
\<close>

lemma rsiLoop_wilder:
  assumes p: "1 \<le> p"
  shows "p + j + k < length cs \<Longrightarrow>
     rsiLoop p (Num (wilderAvg p (map gainOf cs) j)) (Num (wilderAvg p (map lossOf cs) j))
         (drop (p + j) cs) ! k
     = Some (Num (rsiValue (wilderAvg p (map gainOf cs) (Suc (j + k)))
                           (wilderAvg p (map lossOf cs) (Suc (j + k)))))"
proof (induction k arbitrary: j)
  case 0
  then have lt: "p + j < length cs" by simp
  have split: "drop (p + j) cs = cs ! (p + j) # drop (Suc (p + j)) cs"
    using lt by (simp add: Cons_nth_drop_Suc)
  have g: "0 \<le> wilderAvg p (map gainOf cs) (Suc j)"
    using p lt by (intro wilderAvg_nonneg) (auto simp add: gainOf_nonneg)
  have l: "0 \<le> wilderAvg p (map lossOf cs) (Suc j)"
    using p lt by (intro wilderAvg_nonneg) (auto simp add: lossOf_nonneg)
  have pne: "p \<noteq> 0" using p by simp
  show ?case
    using lt currentRsi_Num [OF g l]
    by (simp add: split rsiLoop_step [OF pne] del: rsiLoop.simps)
next
  case (Suc k)
  then have lt: "p + j < length cs" and lt': "p + Suc j + k < length cs" by simp_all
  have split: "drop (p + j) cs = cs ! (p + j) # drop (p + Suc j) cs"
    using lt by (simp add: Cons_nth_drop_Suc)
  have pne: "p \<noteq> 0" using p by simp
  show ?case
    using lt Suc.IH [OF lt']
    by (simp add: split rsiLoop_step [OF pne] del: rsiLoop.simps)
qed

lemma calculateRSI_short:
  "length data \<le> p \<Longrightarrow> calculateRSI data p = replicate (length data) None"
  by (simp add: calculateRSI_def map_replicate_const)

lemma calculateRSI_length:
  "length (calculateRSI data p) = length data"
  by (cases "seedSums (priceChanges data) p")
     (auto simp add: calculateRSI_def Let_def length_rsiLoop length_priceChanges)

lemma calculateRSI_warmup:
  "p < length data \<Longrightarrow> i < p \<Longrightarrow> calculateRSI data p ! i = None"
  by (cases "seedSums (priceChanges data) p")
     (simp add: calculateRSI_def Let_def nth_append)

lemma calculateRSI_wilder:
  assumes p: "1 \<le> p" and n: "p + k < length data"
  shows "calculateRSI data p ! (p + k)
         = Some (Num (rsiValue (wilderAvg p (map gainOf (priceChanges data)) k)
                               (wilderAvg p (map lossOf (priceChanges data)) k)))"
proof -
  let ?cs = "priceChanges data"
  let ?G = "map gainOf ?cs" and ?L = "map lossOf ?cs"
  have len: "p \<le> length ?cs" using n by (simp add: length_priceChanges)
  have pne: "real p \<noteq> 0" using p by simp
  have seed: "seedSums ?cs p = (sum_list (take p ?G), sum_list (take p ?L))"
    using seedSums_sums [OF len] by (simp add: take_map)
  have g0: "Num (sum_list (take p ?G) / real p) = Num (wilderAvg p ?G 0)"
    using len by (simp add: mean_def)
  have l0: "Num (sum_list (take p ?L) / real p) = Num (wilderAvg p ?L 0)"
    using len by (simp add: mean_def)
  have unfolded: "calculateRSI data p
        = replicate p None
          @ Some (currentRsi (Num (wilderAvg p ?G 0)) (Num (wilderAvg p ?L 0)))
          # rsiLoop p (Num (wilderAvg p ?G 0)) (Num (wilderAvg p ?L 0)) (drop p ?cs)"
    using n pne g0 l0 by (simp add: calculateRSI_def seed Let_def del: wilderAvg.simps)
  show ?thesis
  proof (cases k)
    case 0
    have "0 \<le> wilderAvg p ?G 0"
      using p len by (intro wilderAvg_nonneg) (auto simp add: gainOf_nonneg)
    moreover have "0 \<le> wilderAvg p ?L 0"
      using p len by (intro wilderAvg_nonneg) (auto simp add: lossOf_nonneg)
    ultimately show ?thesis
      using 0 by (simp add: unfolded nth_append currentRsi_Num del: wilderAvg.simps)
  next
    case (Suc k')
    then have "p + 0 + k' < length ?cs" using n by (simp add: length_priceChanges)
    from rsiLoop_wilder [OF p this] Suc show ?thesis
      by (simp add: unfolded nth_append del: wilderAvg.simps)
  qed
qed

lemma calculateRSI_value_bounds:
  assumes p: "1 \<le> p" and n: "p + k < length data"
  shows "\<exists>r. calculateRSI data p ! (p + k) = Some (Num r) \<and> 0 \<le> r \<and> r \<le> 100"
proof -
  let ?cs = "priceChanges data"
  have len: "p + k \<le> length ?cs" using n by (simp add: length_priceChanges)
  have "0 \<le> wilderAvg p (map gainOf ?cs) k"
    using p len by (intro wilderAvg_nonneg) (auto simp add: gainOf_nonneg)
  moreover have "0 \<le> wilderAvg p (map lossOf ?cs) k"
    using p len by (intro wilderAvg_nonneg) (auto simp add: lossOf_nonneg)
  ultimately show ?thesis
    using calculateRSI_wilder [OF p n] rsiValue_bounds by blast
qed

text \<open>The changes that \<open>calculateRSI\<close> computes are the close-to-close changes.\<close>

lemma priceChanges_close_to_close: "priceChanges data = closeToCloseChanges data"
proof (rule nth_equalityI)
  show "length (priceChanges data) = length (closeToCloseChanges data)"
    by (simp add: priceChanges_def closeToCloseChanges_def)
  fix i
  assume "i < length (priceChanges data)"
  then have i: "Suc i < length data" by (simp add: priceChanges_def)
  then have later: "tl (map close data) ! i = close (data ! Suc i)"
    by (simp add: nth_tl)
  have "[1..<length data] ! i = Suc i"
    using i by (simp add: nth_upt del: upt_Suc)
  then have "priceChanges data ! i = close (data ! Suc i) - close (data ! i)"
    using i by (simp add: priceChanges_def del: upt_Suc)
  with i later show "priceChanges data ! i = closeToCloseChanges data ! i"
    by (simp add: closeToCloseChanges_def)
qed

text \<open>
  C3. For every bar sequence and period \<open>p \<ge> 1\<close>: with at most \<open>p\<close> bars \<open>calculateRSI\<close>
  returns nulls only, one per bar; otherwise the result is as long as the bars, its
  entries \<open>0, ..., p - 1\<close> are null, and its entry at \<open>p + k\<close> is the RSI of Wilder's
  averages of the gains and of the losses of the close-to-close changes, \<open>k\<close> steps after
  their seeds, the means over the first \<open>p\<close> changes, with 0.001 in the place of an
  average loss of 0.
\<close>

theorem calculateRSI_wilder_smoothing:
  "1 \<le> p \<Longrightarrow>
     (length data \<le> p \<longrightarrow> calculateRSI data p = replicate (length data) None) \<and>
     (p < length data \<longrightarrow>
        length (calculateRSI data p) = length data \<and>
        (i < p \<longrightarrow> calculateRSI data p ! i = None) \<and>
        (p + k < length data \<longrightarrow>
           calculateRSI data p ! (p + k)
           = Some (Num (rsiValue (wilderAvg p (map gainOf (closeToCloseChanges data)) k)
                                 (wilderAvg p (map lossOf (closeToCloseChanges data)) k)))))"
  by (simp add: calculateRSI_short calculateRSI_length calculateRSI_warmup calculateRSI_wilder
        priceChanges_close_to_close [symmetric] del: wilderAvg.simps)

theorem calculateRSI_wilder_smoothing_witness:
  "(1::nat) \<le> 2 \<and> (2::nat) < length tradedBars \<and> length tradedBars \<le> 5
   \<and> closeToCloseChanges tradedBars = [1, 1, - 1, 3]
   \<and> calculateRSI tradedBars 5 = [None, None, None, None, None]
   \<and> length (calculateRSI tradedBars 2) = 5
   \<and> calculateRSI tradedBars 2 ! 1 = None
   \<and> calculateRSI tradedBars 2 ! 2 = Some (Num (100000 / 1001))
   \<and> calculateRSI tradedBars 2 ! 3 = Some (Num 50)
   \<and> calculateRSI tradedBars 2 ! 4 = Some (Num (175 / 2))"
proof -
  let ?G = "map gainOf (closeToCloseChanges tradedBars)"
  let ?L = "map lossOf (closeToCloseChanges tradedBars)"
  have len: "length tradedBars = 5" by (simp add: tradedBars_def)
  have cs: "closeToCloseChanges tradedBars = [1, 1, - 1, 3]"
    by (simp add: closeToCloseChanges_def tradedBars_def barOHLC_def)
  have G: "?G = [1, 1, 0, 3]" and L: "?L = [0, 0, 1, 0]"
    by (simp_all add: cs gainOf_def lossOf_def)
  have w0: "wilderAvg 2 ?G 0 = 1" "wilderAvg 2 ?L 0 = 0"
    by (simp_all add: G L mean_def)
  have one: "(1::nat) = Suc 0" and two: "(2::nat) = Suc (Suc 0)" by simp_all
  have s1: "wilderAvg 2 ?G (Suc 0) = 1 / 2" "wilderAvg 2 ?L (Suc 0) = 1 / 2"
    by (simp_all add: w0 del: wilderAvg.simps(1)) (simp_all add: G L)
  have s2: "wilderAvg 2 ?G (Suc (Suc 0)) = 7 / 4" "wilderAvg 2 ?L (Suc (Suc 0)) = 1 / 4"
    by (simp_all add: w0 del: wilderAvg.simps(1)) (simp_all add: G L)
  have w1: "wilderAvg 2 ?G 1 = 1 / 2" "wilderAvg 2 ?L 1 = 1 / 2"
    by (rule trans [OF arg_cong [where f = "wilderAvg 2 ?G", OF one] s1(1)])
       (rule trans [OF arg_cong [where f = "wilderAvg 2 ?L", OF one] s1(2)])
  have w2: "wilderAvg 2 ?G 2 = 7 / 4" "wilderAvg 2 ?L 2 = 1 / 4"
    by (rule trans [OF arg_cong [where f = "wilderAvg 2 ?G", OF two] s2(1)])
       (rule trans [OF arg_cong [where f = "wilderAvg 2 ?L", OF two] s2(2)])
  have v0: "rsiValue (wilderAvg 2 ?G 0) (wilderAvg 2 ?L 0) = 100000 / 1001"
    by (simp only: w0) (simp add: rsiValue_def)
  have v1: "rsiValue (wilderAvg 2 ?G 1) (wilderAvg 2 ?L 1) = 50"
    by (simp only: w1) (simp add: rsiValue_def)
  have v2: "rsiValue (wilderAvg 2 ?G 2) (wilderAvg 2 ?L 2) = 175 / 2"
    by (simp only: w2) (simp add: rsiValue_def)
  have short: "calculateRSI tradedBars 5 = [None, None, None, None, None]"
    using calculateRSI_wilder_smoothing [of 5 tradedBars 0 0] len
    by (simp add: numeral_eq_Suc)
  have warm: "length (calculateRSI tradedBars 2) = 5 \<and> calculateRSI tradedBars 2 ! 1 = None"
    using calculateRSI_wilder_smoothing [of 2 tradedBars 1 0] len by simp
  have e2: "calculateRSI tradedBars 2 ! 2 = Some (Num (100000 / 1001))"
    using calculateRSI_wilder_smoothing [of 2 tradedBars 1 0] len unfolding v0 by simp
  have e3: "calculateRSI tradedBars 2 ! 3 = Some (Num 50)"
    using calculateRSI_wilder_smoothing [of 2 tradedBars 1 1] len unfolding v1 by simp
  have e4: "calculateRSI tradedBars 2 ! 4 = Some (Num (175 / 2))"
    using calculateRSI_wilder_smoothing [of 2 tradedBars 1 2] len unfolding v2 by simp
  show ?thesis
    using len cs short warm e2 e3 e4 by simp
qed

text \<open>
  C7. For every bar sequence and every period \<open>p \<ge> 1\<close>, every entry of the array returned
  by \<open>calculateRSI\<close> that is not null is a number between 0 and 100.
\<close>

theorem calculateRSI_in_0_100:
  "1 \<le> p \<Longrightarrow> Some v \<in> set (calculateRSI data p) \<Longrightarrow> \<exists>r. v = Num r \<and> 0 \<le> r \<and> r \<le> 100"
proof -
  assume p: "1 \<le> p" and v: "Some v \<in> set (calculateRSI data p)"
  from v obtain i where i: "i < length data" and vi: "calculateRSI data p ! i = Some v"
    by (auto simp add: in_set_conv_nth calculateRSI_length)
  have long: "p < length data"
  proof (rule ccontr)
    assume "\<not> p < length data"
    then have "calculateRSI data p = replicate (length data) None"
      by (simp add: calculateRSI_short)
    with i vi show False by simp
  qed
  have "p \<le> i"
  proof (rule ccontr)
    assume "\<not> p \<le> i"
    then have "calculateRSI data p ! i = None"
      using long by (simp add: calculateRSI_warmup)
    with vi show False by simp
  qed
  then obtain k where k: "i = p + k" by (auto simp add: le_iff_add)
  from calculateRSI_value_bounds [OF p] i k vi show ?thesis
    by fastforce
qed

lemma calculateRSI_fiveBars:
  "calculateRSI fiveBars 2
   = [None, None, Some (Num (100000 / 1001)), Some (Num 50), Some (Num (175 / 2))]"
  by (simp add: calculateRSI_def fiveBars_def bar_def priceChanges_def seedSums_def
        currentRsi_def Let_def upt_rec numeral_2_eq_2)

theorem calculateRSI_in_0_100_witness:
  "(1::nat) \<le> 2 \<and> Some (Num 50) \<in> set (calculateRSI fiveBars 2)
   \<and> (\<exists>r. Num 50 = Num r \<and> 0 \<le> r \<and> r \<le> 100)"
proof -
  have mem: "Some (Num 50) \<in> set (calculateRSI fiveBars 2)"
    by (simp add: calculateRSI_fiveBars)
  have p: "(1::nat) \<le> 2" by simp
  show ?thesis
    by (intro conjI) (rule p, rule mem, rule calculateRSI_in_0_100 [OF p mem])
qed

section \<open>The signal line of the MACD\<close>

lemma doublingBars_closes:
  "map (\<lambda>d. Num (close d)) doublingBars = [Num 2, Num 4, Num 8, Num 16]"
  by (simp add: doublingBars_def bar_def)

lemma fastEMA_doublingBars:
  "calculateEMA [Num 2, Num 4, Num 8, Num 16] 1
   = [Some (Num 2), Some (Num 4), Some (Num 8), Some (Num 16)]"
  by (simp add: calculateEMA_def nthNum_def Let_def)

lemma slowEMA_doublingBars:
  "calculateEMA [Num 2, Num 4, Num 8, Num 16] 2
   = [None, Some (Num 3), Some (Num (19 / 3)), Some (Num (115 / 9))]"
  by (simp add: calculateEMA_def nthNum_def Let_def upt_rec numeral_2_eq_2)

lemma macdLineOf_doublingBars:
  "macdLineOf [Some (Num 2), Some (Num 4), Some (Num 8), Some (Num 16)]
      [None, Some (Num 3), Some (Num (19 / 3)), Some (Num (115 / 9))] 2
      (length [Num 2, Num 4, Num 8, Num 16 :: jsnum])
   = [None, Some (Num 1), Some (Num (5 / 3)), Some (Num (29 / 9))]"
  by (simp add: macdLineOf_def upt_rec)

lemma macdLineValues_doublingBars:
  "macdLineValues [None, Some (Num 1), Some (Num (5 / 3)), Some (Num (29 / 9))]
   = [Num 1, Num (5 / 3), Num (29 / 9)]"
  by (simp add: macdLineValues_def)

lemma signalEMA_doublingBars:
  "calculateEMA [Num 1, Num (5 / 3), Num (29 / 9)] 2
   = [None, Some (Num (4 / 3)), Some (Num (70 / 27))]"
  by (simp add: calculateEMA_def nthNum_def Let_def upt_rec numeral_2_eq_2)

lemma alignSignal_doublingBars:
  "alignSignal [None, Some (Num (4 / 3)), Some (Num (70 / 27))] 2 0
      [None, Some (Num 1), Some (Num (5 / 3)), Some (Num (29 / 9))]
   = [None, None, None, Some (Num (4 / 3))]"
  by simp

lemma histogramOf_doublingBars:
  "histogramOf [None, Some (Num 1), Some (Num (5 / 3)), Some (Num (29 / 9))]
      [None, None, None, Some (Num (4 / 3))]
   = [None, None, None, Some (Num (17 / 9))]"
  by (simp add: histogramOf_def upt_rec)

text \<open>
  C2, at four bars with closes 2, 4, 8, 16 and the periods 1, 2 and 2. The MACD line has
  its values at the indices 1, 2, 3, and the EMA of period 2 of these three values is
  null, 4/3, 70/27. Aligned with the bars, the signal line would be null, null, 4/3,
  70/27. The source reads the EMA, which carries its own leading null, one position
  further back again: the signal line is null at index 2, and at index 3 it is 4/3, the
  EMA of the index before.
\<close>

theorem calculateMACD_signal_lags:
  "macdLine (calculateMACD doublingBars 1 2 2)
     = [None, Some (Num 1), Some (Num (5 / 3)), Some (Num (29 / 9))]
   \<and> calculateEMA (macdLineValues (macdLine (calculateMACD doublingBars 1 2 2))) 2
     = [None, Some (Num (4 / 3)), Some (Num (70 / 27))]
   \<and> signalLine (calculateMACD doublingBars 1 2 2) = [None, None, None, Some (Num (4 / 3))]
   \<and> histogram (calculateMACD doublingBars 1 2 2) = [None, None, None, Some (Num (17 / 9))]"
  unfolding calculateMACD_def Let_def MACD.select_convs doublingBars_closes
    fastEMA_doublingBars slowEMA_doublingBars macdLineOf_doublingBars
    macdLineValues_doublingBars signalEMA_doublingBars alignSignal_doublingBars
    histogramOf_doublingBars
  by (intro conjI refl)

text \<open>
  For every input: where the MACD line has a value, the signal line is null as long as
  fewer than \<open>2 * (signalPeriod - 1)\<close> values of the MACD line precede it. From
  \<open>signalPeriod - 1\<close> values on, the guard of the alignment loop lets the read through,
  and the read falls on one of the leading nulls of the EMA.
\<close>

lemma length_emaLoop: "length (emaLoop m prev ps) = length ps"
  by (induction ps arbitrary: prev) (simp_all add: Let_def)

lemma length_calculateEMA: "length (calculateEMA prices period) = max period (length prices)"
  by (simp add: calculateEMA_def Let_def length_emaLoop)

lemma calculateEMA_leading_null:
  assumes "q < period - 1"
  shows "calculateEMA prices period ! q = None"
proof -
  have "q < period" and "q \<noteq> period - 1" using assms by simp_all
  then show ?thesis
    by (simp add: calculateEMA_def Let_def nth_append)
qed

lemma macdLineValues_Cons:
  "macdLineValues (None # ms) = macdLineValues ms"
  "macdLineValues (Some v # ms) = v # macdLineValues ms"
  by (simp_all add: macdLineValues_def)

lemma alignSignal_second_warmup:
  assumes "\<And>q. q < sp - 1 \<Longrightarrow> q < length E \<and> E ! q = None"
  shows "i < length ms \<Longrightarrow> ms ! i = Some m
     \<Longrightarrow> k + length (macdLineValues (take i ms)) < 2 * (sp - 1)
     \<Longrightarrow> alignSignal E sp k ms ! i = None"
proof (induction ms arbitrary: i k)
  case Nil
  then show ?case by simp
next
  case (Cons x ms)
  show ?case
  proof (cases i)
    case 0
    with Cons.prems have x: "x = Some m" and k: "k < 2 * (sp - 1)" by simp_all
    show ?thesis
    proof (cases "int k < int sp - 1")
      case True
      with 0 x show ?thesis by simp
    next
      case False
      then have "nat (int k - (int sp - 1)) < sp - 1" using k by linarith
      from assms [OF this] False 0 x show ?thesis by (simp add: Let_def)
    qed
  next
    case (Suc i')
    show ?thesis
    proof (cases x)
      case None
      with Suc Cons.prems Cons.IH [of i' k] show ?thesis
        by (simp add: macdLineValues_Cons)
    next
      case (Some v)
      with Suc Cons.prems Cons.IH [of i' "k + 1"] show ?thesis
        by (simp add: macdLineValues_Cons)
    qed
  qed
qed

lemma signalLine_second_warmup:
  assumes "i < length (macdLine (calculateMACD data f sl sp))"
    and "macdLine (calculateMACD data f sl sp) ! i = Some m"
    and "length (macdLineValues (take i (macdLine (calculateMACD data f sl sp)))) < 2 * (sp - 1)"
  shows "signalLine (calculateMACD data f sl sp) ! i = None"
proof -
  let ?M = "macdLine (calculateMACD data f sl sp)"
  let ?E = "calculateEMA (macdLineValues ?M) sp"
  have sig: "signalLine (calculateMACD data f sl sp) = alignSignal ?E sp 0 ?M"
    by (simp add: calculateMACD_def Let_def)
  have nulls: "\<And>q. q < sp - 1 \<Longrightarrow> q < length ?E \<and> ?E ! q = None"
    by (simp add: length_calculateEMA calculateEMA_leading_null)
  show ?thesis
    unfolding sig using assms by (intro alignSignal_second_warmup [OF nulls]) simp_all
qed

text \<open>The histogram is the difference where both lines have a value, and null elsewhere.\<close>

lemma histogramOf_nth:
  "i < length macd \<Longrightarrow>
     histogramOf macd signal ! i
     = (case (macd ! i, signal ! i) of (Some m, Some s) \<Rightarrow> Some (jsub m s) | _ \<Rightarrow> None)"
  by (simp add: histogramOf_def split: option.split)

lemma length_macdLine: "length (macdLine (calculateMACD data f sl sp)) = length data"
  by (simp add: calculateMACD_def Let_def macdLineOf_def)

lemma histogram_is_difference:
  assumes "i < length data"
  shows "histogram (calculateMACD data f sl sp) ! i
         = (case (macdLine (calculateMACD data f sl sp) ! i,
                  signalLine (calculateMACD data f sl sp) ! i) of
              (Some m, Some s) \<Rightarrow> Some (jsub m s)
            | _ \<Rightarrow> None)"
proof -
  have "histogram (calculateMACD data f sl sp)
        = histogramOf (macdLine (calculateMACD data f sl sp))
            (signalLine (calculateMACD data f sl sp))"
    by (simp add: calculateMACD_def Let_def)
  then show ?thesis
    using assms by (simp only: histogramOf_nth length_macdLine)
qed

lemma emaLoop_nth_defined:
  "i < length ps \<Longrightarrow> \<exists>v. emaLoop m prev ps ! i = Some v"
proof (induction ps arbitrary: prev i)
  case Nil
  then show ?case by simp
next
  case (Cons p ps)
  then show ?case by (cases i) (simp_all add: Let_def)
qed

lemma calculateEMA_defined:
  assumes "1 \<le> period" and "period - 1 \<le> i" and "i < length prices"
  shows "\<exists>v. calculateEMA prices period ! i = Some v"
proof (cases "i = period - 1")
  case True
  then have "i < period" using assms by simp
  with True show ?thesis
    by (simp add: calculateEMA_def Let_def nth_append)
next
  case False
  then have ge: "period \<le> i" using assms by simp
  then have "i - period < length (drop period prices)" using assms by simp
  from emaLoop_nth_defined [OF this] ge show ?thesis
    by (simp add: calculateEMA_def Let_def nth_append)
qed

lemma macdLine_null_or_defined:
  assumes "1 \<le> f" and "f \<le> sl" and "i < length data"
  shows "(macdLine (calculateMACD data f sl sp) ! i = None) = (i < sl - 1)"
proof (cases "i < sl - 1")
  case True
  then have "int i < int sl - 1" by linarith
  with assms True show ?thesis
    by (simp add: calculateMACD_def Let_def macdLineOf_def)
next
  case False
  then have guard: "\<not> int i < int sl - 1" by linarith
  have i: "i < length (map (\<lambda>d. Num (close d)) data)" using assms by simp
  have "f - 1 \<le> i" and "sl - 1 \<le> i" and "1 \<le> sl" using False assms by simp_all
  then obtain a b
    where "calculateEMA (map (\<lambda>d. Num (close d)) data) f ! i = Some a"
      and "calculateEMA (map (\<lambda>d. Num (close d)) data) sl ! i = Some b"
    using calculateEMA_defined [OF assms(1) _ i] calculateEMA_defined [OF _ _ i, of sl]
    by blast
  with guard assms False show ?thesis
    by (simp add: calculateMACD_def Let_def macdLineOf_def)
qed

lemma macdLineValues_append:
  "macdLineValues (xs @ ys) = macdLineValues xs @ macdLineValues ys"
  by (simp add: macdLineValues_def)

lemma count_values_before:
  assumes "\<And>j. j < length ms \<Longrightarrow> (ms ! j = None) = (j < a)"
  shows "i \<le> length ms \<Longrightarrow> length (macdLineValues (take i ms)) = i - a"
proof (induction i)
  case 0
  show ?case by (simp add: macdLineValues_def)
next
  case (Suc i)
  then have i: "i < length ms" by simp
  have split: "take (Suc i) ms = take i ms @ [ms ! i]"
    using i by (rule take_Suc_conv_app_nth)
  show ?case
  proof (cases "i < a")
    case True
    then have "ms ! i = None" using assms [OF i] by simp
    with Suc i True show ?thesis
      by (simp add: split macdLineValues_append macdLineValues_def)
  next
    case False
    then obtain v where "ms ! i = Some v" using assms [OF i] by (cases "ms ! i") simp_all
    with Suc i False show ?thesis
      by (simp add: split macdLineValues_append macdLineValues_def Suc_diff_le)
  qed
qed

text \<open>
  With \<open>fastPeriod \<le> slowPeriod\<close> the MACD line has its first value at \<open>slowPeriod - 1\<close>.
  At the indices from \<open>slowPeriod - 1 + (signalPeriod - 1)\<close>, where \<open>signalPeriod - 1\<close>
  values of the MACD line have accumulated, up to
  \<open>slowPeriod - 1 + 2 * (signalPeriod - 1)\<close>, the MACD line has a value and the signal line
  is null; with the periods 12, 26 and 9 these are the indices 33 to 40.
\<close>

lemma signalLine_null_past_first_warmup:
  assumes "1 \<le> f" and "f \<le> sl" and "i < length data"
    and "sl - 1 + (sp - 1) \<le> i" and "i < sl - 1 + 2 * (sp - 1)"
  shows "macdLine (calculateMACD data f sl sp) ! i \<noteq> None
         \<and> length (macdLineValues (take i (macdLine (calculateMACD data f sl sp)))) = i - (sl - 1)
         \<and> signalLine (calculateMACD data f sl sp) ! i = None"
proof -
  let ?M = "macdLine (calculateMACD data f sl sp)"
  have len: "length ?M = length data" by (rule length_macdLine)
  have shape: "\<And>j. j < length ?M \<Longrightarrow> (?M ! j = None) = (j < sl - 1)"
    using assms(1,2) by (simp add: len macdLine_null_or_defined)
  have count: "length (macdLineValues (take i ?M)) = i - (sl - 1)"
    using assms(3) by (intro count_values_before [OF shape]) (simp_all add: len)
  have "\<not> i < sl - 1" using assms(4) by simp
  then have some: "?M ! i \<noteq> None"
    using shape [of i] assms(3) by (simp add: len)
  then obtain m where m: "?M ! i = Some m" by (cases "?M ! i") simp_all
  have "length (macdLineValues (take i ?M)) < 2 * (sp - 1)"
    using count assms(4,5) by simp
  with m assms(3) have "signalLine (calculateMACD data f sl sp) ! i = None"
    by (intro signalLine_second_warmup) (simp_all add: len)
  with some count show ?thesis by simp
qed

lemma signalLine_default_periods:
  assumes "33 < length data"
  shows "macdLine (calculateMACD data 12 26 9) ! 33 \<noteq> None
         \<and> length (macdLineValues (take 33 (macdLine (calculateMACD data 12 26 9)))) = 8
         \<and> signalLine (calculateMACD data 12 26 9) ! 33 = None"
  using signalLine_null_past_first_warmup [of 12 26 33 data 9] assms by simp

section \<open>Deleting a line\<close>

text \<open>
  C10. For every collection of committed lines and every id, \<open>deleteLine\<close> leaves no line
  with that id, keeps every other line in its place relative to the others, adds none, sets
  the selected line to none whichever line was selected, and changes no other part of the
  state; when no line has the id, the collection is unchanged.
\<close>

theorem deleteLine_removes_id_and_clears_selection:
  "selectedLine (deleteLine i s) = None
   \<and> filter (\<lambda>l. lineId l = i) (drawingLines (deleteLine i s)) = []
   \<and> filter (\<lambda>l. lineId l \<noteq> i) (drawingLines (deleteLine i s))
       = filter (\<lambda>l. lineId l \<noteq> i) (drawingLines s)
   \<and> subseq (drawingLines (deleteLine i s)) (drawingLines s)
   \<and> (i \<notin> lineId ` set (drawingLines s) \<longrightarrow> drawingLines (deleteLine i s) = drawingLines s)
   \<and> (deleteLine i s)\<lparr>drawingLines := drawingLines s, selectedLine := selectedLine s\<rparr> = s"
proof (intro conjI impI)
  show "filter (\<lambda>l. lineId l = i) (drawingLines (deleteLine i s)) = []"
    by (simp add: deleteLine_def filter_empty_conv)
  show "subseq (drawingLines (deleteLine i s)) (drawingLines s)"
    by (simp add: deleteLine_def)
  assume "i \<notin> lineId ` set (drawingLines s)"
  then have "\<forall>l \<in> set (drawingLines s). lineId l \<noteq> i" by auto
  then show "drawingLines (deleteLine i s) = drawingLines s"
    by (simp add: deleteLine_def)
qed (simp_all add: deleteLine_def)


theorem deleteLine_removes_id_and_clears_selection_witness:
  "''line-9'' \<notin> lineId ` set (drawingLines twoLines)
   \<and> drawingLines (deleteLine ''line-9'' twoLines) = drawingLines twoLines
   \<and> selectedLine (deleteLine ''line-9'' twoLines) = None
   \<and> map lineId (drawingLines (deleteLine ''line-1'' twoLines)) = [''line-2'']
   \<and> selectedLine twoLines = Some ''line-2''
   \<and> selectedLine (deleteLine ''line-1'' twoLines) = None"
proof -
  have absent: "''line-9'' \<notin> lineId ` set (drawingLines twoLines)"
    by (simp add: twoLines_def lineWithId_def)
  have kept: "drawingLines (deleteLine ''line-9'' twoLines) = drawingLines twoLines"
    using deleteLine_removes_id_and_clears_selection [of "''line-9''" twoLines] absent by blast
  have sel: "selectedLine (deleteLine ''line-9'' twoLines) = None"
    "selectedLine (deleteLine ''line-1'' twoLines) = None"
    using deleteLine_removes_id_and_clears_selection by blast+
  have rest: "map lineId (drawingLines (deleteLine ''line-1'' twoLines)) = [''line-2'']"
    by (simp add: deleteLine_def twoLines_def lineWithId_def)
  have was: "selectedLine twoLines = Some ''line-2''"
    by (simp add: twoLines_def)
  show ?thesis using absent kept sel rest was by blast
qed

section \<open>Escape, and lines drawn in the horizontal mode\<close>

lemma pointerStep_keeps_mode: "drawingMode (pointerStep n s e) = drawingMode s"
  by (cases e)
     (auto simp add: handleMouseDown_def handleMouseMove_def handleMouseUp_def Let_def
        split: option.splits bool.splits)

lemma pointerStep_no_mode_no_commit:
  "drawingMode s = None \<Longrightarrow> drawingLines (pointerStep n s e) = drawingLines s"
  by (cases e)
     (auto simp add: handleMouseDown_def handleMouseMove_def handleMouseUp_def Let_def
        split: option.splits bool.splits)

lemma runPointer_no_mode_no_commit:
  "drawingMode s = None \<Longrightarrow> drawingLines (runPointer n s es) = drawingLines s"
  unfolding runPointer_def
proof (induction es arbitrary: s)
  case Nil
  show ?case by simp
next
  case (Cons e es)
  have "drawingMode (pointerStep n s e) = None"
    using Cons.prems by (simp add: pointerStep_keeps_mode)
  from Cons.IH [OF this] Cons.prems show ?case
    by (simp add: pointerStep_no_mode_no_commit)
qed

lemma midDrawing_state:
  "midDrawing = initialState\<lparr>drawingMode := Some trendline,
                   drawingStart := Some \<lparr>index = 1, price = 500\<rparr>,
                   drawingEnd := Some \<lparr>index = 5, price = 250\<rparr>\<rparr>"
  by (simp add: midDrawing_def handleKeyDown_def toggleDrawingMode_def handleMouseDown_def
        handleMouseMove_def pixelToData_def mouseAt_def chartEl_def initialState_def Let_def
        round_def)

text \<open>
  What Escape does in the source: the viewport domain becomes unset and the drawing mode
  none, and nothing else changes. While no drawing mode is switched on again, no sequence
  of pointer events commits a line.
\<close>

lemma escape_resets_zoom_and_mode:
  "xAxisDomain (handleKeyDown n ''Escape'' s) = None
   \<and> drawingMode (handleKeyDown n ''Escape'' s) = None
   \<and> drawingStart (handleKeyDown n ''Escape'' s) = drawingStart s
   \<and> drawingEnd (handleKeyDown n ''Escape'' s) = drawingEnd s
   \<and> drawingLines (handleKeyDown n ''Escape'' s) = drawingLines s
   \<and> drawingLines (runPointer n (handleKeyDown n ''Escape'' s) es) = drawingLines s"
proof -
  have esc: "handleKeyDown n ''Escape'' s = s\<lparr>xAxisDomain := None, drawingMode := None\<rparr>"
    by (simp add: handleKeyDown_def resetZoom_def)
  have "drawingMode (handleKeyDown n ''Escape'' s) = None"
    by (simp add: esc)
  then have "drawingLines (runPointer n (handleKeyDown n ''Escape'' s) es)
             = drawingLines (handleKeyDown n ''Escape'' s)"
    by (rule runPointer_no_mode_no_commit)
  then show ?thesis by (simp add: esc)
qed

text \<open>
  C6 in the state \<open>midDrawing\<close>, where a trendline has been begun at (1, 500) and drawn to
  (5, 250). Escape is to clear the drawing in progress, so that no later pointer event
  commits a line begun before it. The source clears the mode and leaves the provisional
  start and end points: when \<open>t\<close> is pressed again, the next pointer-up commits the line
  from (1, 500) to (5, 250), and a pointer move followed by a pointer-up commits a line
  from the start point (1, 500) of before the Escape.
\<close>

theorem escape_keeps_provisional_line:
  "drawingStart (handleKeyDown 10 ''Escape'' midDrawing) = Some \<lparr>index = 1, price = 500\<rparr>
   \<and> drawingEnd (handleKeyDown 10 ''Escape'' midDrawing) = Some \<lparr>index = 5, price = 250\<rparr>
   \<and> drawingLines (handleMouseUp 10 (mouseAt 50 75)
            (handleKeyDown 10 ''t'' (handleKeyDown 10 ''Escape'' midDrawing)))
       = [\<lparr>lineId = ''line-7'', lineType = trendline, startIndex = 1, startPrice = 500,
           endIndex = 5, endPrice = 250, color = ''#FF5722''\<rparr>]
   \<and> drawingLines (handleMouseUp 10 (mouseAt 80 20) (handleMouseMove 10 (mouseAt 80 20)
            (handleKeyDown 10 ''t'' (handleKeyDown 10 ''Escape'' midDrawing))))
       = [\<lparr>lineId = ''line-7'', lineType = trendline, startIndex = 1, startPrice = 500,
           endIndex = 7, endPrice = 800, color = ''#FF5722''\<rparr>]"
  by (simp add: midDrawing_state handleKeyDown_def resetZoom_def toggleDrawingMode_def
        handleMouseUp_def handleMouseMove_def pixelToData_def chartEl_def initialState_def
        mouseAt_def lineColors_def Let_def round_def)

text \<open>
  C9 at a switch of mode in the middle of a gesture: a trendline is begun, \<open>h\<close> is pressed
  while the pointer is still down, and the pointer-up that follows, with the horizontal
  mode active, commits a line of kind horizontal from price 500 to price 250.
\<close>

theorem horizontal_line_committed_with_two_prices:
  "drawingMode (handleKeyDown 10 ''h'' midDrawing) = Some horizontalline
   \<and> drawingLines (handleMouseUp 10 (mouseAt 50 75) (handleKeyDown 10 ''h'' midDrawing))
       = [\<lparr>lineId = ''line-7'', lineType = horizontalline, startIndex = 1, startPrice = 500,
           endIndex = 5, endPrice = 250, color = ''#FF5722''\<rparr>]"
  by (simp add: midDrawing_state handleKeyDown_def toggleDrawingMode_def
        handleMouseUp_def initialState_def mouseAt_def lineColors_def Let_def)

text \<open>
  A gesture that is begun in the horizontal mode does commit a level line: from a state
  whose pending end point, if any, has the price of the start point, every sequence of
  pointer events in the horizontal mode keeps the horizontal lines level.
\<close>

lemma pointerStep_horizontal_level:
  assumes "drawingMode s = Some horizontalline" and "horizontalsLevel s"
  shows "horizontalsLevel (pointerStep n s e)"
  using assms
  by (cases e)
     (auto simp add: horizontalsLevel_def handleMouseDown_def handleMouseMove_def
        handleMouseUp_def Let_def split: option.splits bool.splits)

lemma runPointer_horizontal_level:
  "drawingMode s = Some horizontalline \<Longrightarrow> horizontalsLevel s
     \<Longrightarrow> horizontalsLevel (runPointer n s es)"
  unfolding runPointer_def
proof (induction es arbitrary: s)
  case Nil
  then show ?case by simp
next
  case (Cons e es)
  have "drawingMode (pointerStep n s e) = Some horizontalline"
    using Cons.prems by (simp add: pointerStep_keeps_mode)
  moreover have "horizontalsLevel (pointerStep n s e)"
    using Cons.prems by (rule pointerStep_horizontal_level)
  ultimately show ?case using Cons.IH by simp
qed

section \<open>The viewport domain after a pan or a zoom\<close>

lemma domainInv_Some:
  "domainInv n (Some (a, b)) = (0 \<le> a \<and> a \<le> b \<and> b \<le> real n - 1 \<and> 5 \<le> b - a)"
  by (auto simp add: domainInv_def domainInRange_def domainWidth_def domainBounds_def)

lemma domainInRange_Some:
  "domainInRange n (Some (a, b)) = (0 \<le> a \<and> a \<le> b \<and> b \<le> real n - 1)"
  by (simp add: domainInRange_def domainBounds_def)

lemma zoomed_range_clamped:
  "6 \<le> n \<Longrightarrow> 5 \<le> max 5 (min (real n) x) \<and> max 5 (min (real n) x) \<le> real n"
  by (auto simp add: max_def min_def)

lemma wheel_window_inv:
  assumes n: "6 \<le> n" and r: "5 \<le> r" "r \<le> real n"
  shows "domainInv n (Some (if min (real n - 1) (max 0 x + r) = real n - 1
                            then max 0 (min (real n - 1) (max 0 x + r) - r) else max 0 x,
                            min (real n - 1) (max 0 x + r)))"
proof (cases "real n - 1 \<le> max 0 x + r")
  case True
  then have e: "min (real n - 1) (max 0 x + r) = real n - 1" by simp
  have "5 \<le> real n - 1" using n by simp
  then show ?thesis
    using r by (cases "0 \<le> real n - 1 - r") (simp_all add: e domainInv_Some)
next
  case False
  then have e: "min (real n - 1) (max 0 x + r) = max 0 x + r" by simp
  have "max 0 x + r \<noteq> real n - 1" using False by simp
  then show ?thesis
    using r False by (simp add: e domainInv_Some)
qed

lemma select_update_domain: "xAxisDomain (s\<lparr>xAxisDomain := v\<rparr>) = v"
  by simp

lemma handleWheel_inv:
  assumes "6 \<le> n"
  shows "domainInv n (xAxisDomain (handleWheel n e s))"
proof -
  define start where "start = (case xAxisDomain s of Some d \<Rightarrow> fst d | None \<Rightarrow> 0)"
  define range where
    "range = (case xAxisDomain s of Some d \<Rightarrow> snd d | None \<Rightarrow> real n - 1) - start"
  define r where "r = max 5 (min (real n) (range * (if deltaY e > 0 then 1.1 else 0.9)))"
  define x where "x = start + (range - r) * (offsetX e / targetClientWidth e)"
  have n0: "n \<noteq> 0" using assms by simp
  have "handleWheel n e s
        = s\<lparr>xAxisDomain := Some (if min (real n - 1) (max 0 x + r) = real n - 1
                    then max 0 (min (real n - 1) (max 0 x + r) - r) else max 0 x,
                    min (real n - 1) (max 0 x + r))\<rparr>"
    by (simp only: handleWheel_def Let_def n0 if_False x_def r_def range_def start_def)
  then have eq: "xAxisDomain (handleWheel n e s)
            = Some (if min (real n - 1) (max 0 x + r) = real n - 1
                    then max 0 (min (real n - 1) (max 0 x + r) - r) else max 0 x,
                    min (real n - 1) (max 0 x + r))"
    by (simp only: select_update_domain)
  have "5 \<le> r" "r \<le> real n"
    unfolding r_def using zoomed_range_clamped [OF assms] by blast+
  then show ?thesis
    unfolding eq by (rule wheel_window_inv [OF assms])
qed

lemma dragPan_window_inv:
  assumes "0 \<le> a" "a \<le> b" "b \<le> real n - 1" "5 \<le> b - a"
  shows "domainInv n (Some
      (if max 0 (a + m) = 0 then (max 0 (a + m), min (real n - 1) (max 0 (a + m) + (b - a)))
       else if min (real n - 1) (b + m) = real n - 1
         then (max 0 (min (real n - 1) (b + m) - (b - a)), min (real n - 1) (b + m))
       else (max 0 (a + m), min (real n - 1) (b + m))))"
proof (cases "a + m \<le> 0")
  case True
  then have z: "max 0 (a + m) = 0" by (simp add: max_def)
  have w: "min (real n - 1) (0 + (b - a)) = b - a"
    using assms by (simp add: min_def)
  have "domainInv n (Some (0, b - a))"
    unfolding domainInv_Some using assms by linarith
  then show ?thesis by (simp only: z w simp_thms if_True)
next
  case False
  then have s: "max 0 (a + m) = a + m" by (simp add: max_def)
  have ne: "a + m \<noteq> 0" using False by linarith
  show ?thesis
  proof (cases "real n - 1 \<le> b + m")
    case True
    then have e: "min (real n - 1) (b + m) = real n - 1" by (simp add: min_def)
    have st: "max 0 (real n - 1 - (b - a)) = real n - 1 - (b - a)"
      using assms by (simp add: max_def)
    have "domainInv n (Some (real n - 1 - (b - a), real n - 1))"
      unfolding domainInv_Some using assms by linarith
    then show ?thesis by (simp only: s ne e st simp_thms if_False if_True)
  next
    case hi: False
    then have e: "min (real n - 1) (b + m) = b + m" by (simp add: min_def)
    have ne': "b + m \<noteq> real n - 1" using hi by linarith
    have "domainInv n (Some (a + m, b + m))"
      unfolding domainInv_Some using assms False hi by linarith
    then show ?thesis by (simp only: s ne e ne' simp_thms if_False)
  qed
qed

lemma dragPan_inv:
  assumes "domainInv n (Some d)"
  shows "domainInv n (Some (dragPan n e startX d))"
proof -
  obtain a b where d: "d = (a, b)" by (cases d)
  have inv: "0 \<le> a" "a \<le> b" "b \<le> real n - 1" "5 \<le> b - a"
    using assms by (simp_all add: d domainInv_Some)
  define m where "m = (startX - clientX e)
       / (case chartRef e of None \<Rightarrow> 1 | Some el \<Rightarrow> if clientWidth el = 0 then 1 else clientWidth el)
       * (b - a)"
  have eq: "dragPan n e startX d =
      (if max 0 (a + m) = 0 then (max 0 (a + m), min (real n - 1) (max 0 (a + m) + (b - a)))
       else if min (real n - 1) (b + m) = real n - 1
         then (max 0 (min (real n - 1) (b + m) - (b - a)), min (real n - 1) (b + m))
       else (max 0 (a + m), min (real n - 1) (b + m)))"
    by (simp only: dragPan_def d Let_def m_def fst_conv snd_conv)
  show ?thesis
    unfolding eq by (rule dragPan_window_inv [OF inv])
qed

lemma handleMouseMove_domain:
  "xAxisDomain (handleMouseMove n e s) = xAxisDomain s
   \<or> (\<exists>startX d. xAxisDomain s = Some d
         \<and> xAxisDomain (handleMouseMove n e s) = Some (dragPan n e startX d))"
  by (auto simp add: handleMouseMove_def Let_def split: option.split bool.split)

lemma handleMouseMove_inv:
  assumes "domainInv n (xAxisDomain s)"
  shows "domainInv n (xAxisDomain (handleMouseMove n e s))"
  using handleMouseMove_domain [of n e s] assms dragPan_inv by auto

lemma arrowLeft_domain:
  "xAxisDomain s = Some (a, b) \<Longrightarrow>
     xAxisDomain (handleKeyDown n ''ArrowLeft'' s)
     = (if max 0 (a - (b - a) * 0.1) + (b - a) \<le> real n - 1
        then Some (max 0 (a - (b - a) * 0.1), max 0 (a - (b - a) * 0.1) + (b - a))
        else Some (a, b))"
  by (simp add: handleKeyDown_def Let_def)

lemma arrowRight_domain:
  "xAxisDomain s = Some (a, b) \<Longrightarrow>
     xAxisDomain (handleKeyDown n ''ArrowRight'' s)
     = (if min (real n - 1) (b + (b - a) * 0.1) - (b - a) \<ge> 0
        then Some (min (real n - 1) (b + (b - a) * 0.1) - (b - a),
                   min (real n - 1) (b + (b - a) * 0.1))
        else Some (a, b))"
  by (simp add: handleKeyDown_def Let_def)

lemma minus_key_domain:
  "xAxisDomain s = Some (a, b) \<Longrightarrow>
     xAxisDomain (handleKeyDown n ''-'' s)
     = Some (max 0 ((a + b) / 2 - (b - a) * 1.2 / 2),
             min (real n - 1) ((a + b) / 2 + (b - a) * 1.2 / 2))"
  apply (simp add: handleKeyDown_def Let_def)
  apply (intro conjI arg_cong2 [where f = max] arg_cong2 [where f = min] refl)
   apply (simp_all add: field_simps)
  done

lemma underscore_key_domain:
  "xAxisDomain s = Some (a, b) \<Longrightarrow>
     xAxisDomain (handleKeyDown n ''_'' s)
     = Some (max 0 ((a + b) / 2 - (b - a) * 1.2 / 2),
             min (real n - 1) ((a + b) / 2 + (b - a) * 1.2 / 2))"
  apply (simp add: handleKeyDown_def Let_def)
  apply (intro conjI arg_cong2 [where f = max] arg_cong2 [where f = min] refl)
   apply (simp_all add: field_simps)
  done

lemma zoomOut_domain:
  assumes "xAxisDomain s = Some (a, b)" and "key = ''-'' \<or> key = ''_''"
  shows "xAxisDomain (handleKeyDown n key s)
     = Some (max 0 ((a + b) / 2 - (b - a) * 1.2 / 2),
             min (real n - 1) ((a + b) / 2 + (b - a) * 1.2 / 2))"
  using assms(2)
proof
  assume "key = ''-''"
  then show ?thesis by (simp only: minus_key_domain [OF assms(1)])
next
  assume "key = ''_''"
  then show ?thesis by (simp only: underscore_key_domain [OF assms(1)])
qed

lemma plus_key_domain:
  "xAxisDomain s = Some (a, b) \<Longrightarrow>
     xAxisDomain (handleKeyDown n ''+'' s)
     = Some (max 0 ((a + b) / 2 - (b - a) * 0.8 / 2),
             min (real n - 1) ((a + b) / 2 + (b - a) * 0.8 / 2))"
  apply (simp add: handleKeyDown_def Let_def)
  apply (intro conjI arg_cong2 [where f = max] arg_cong2 [where f = min] refl)
   apply (simp_all add: field_simps)
  done

lemma equals_key_domain:
  "xAxisDomain s = Some (a, b) \<Longrightarrow>
     xAxisDomain (handleKeyDown n ''='' s)
     = Some (max 0 ((a + b) / 2 - (b - a) * 0.8 / 2),
             min (real n - 1) ((a + b) / 2 + (b - a) * 0.8 / 2))"
  apply (simp add: handleKeyDown_def Let_def)
  apply (intro conjI arg_cong2 [where f = max] arg_cong2 [where f = min] refl)
   apply (simp_all add: field_simps)
  done

lemma zoomIn_domain:
  assumes "xAxisDomain s = Some (a, b)" and "key = ''+'' \<or> key = ''=''"
  shows "xAxisDomain (handleKeyDown n key s)
     = Some (max 0 ((a + b) / 2 - (b - a) * 0.8 / 2),
             min (real n - 1) ((a + b) / 2 + (b - a) * 0.8 / 2))"
  using assms(2)
proof
  assume "key = ''+''"
  then show ?thesis by (simp only: plus_key_domain [OF assms(1)])
next
  assume "key = ''=''"
  then show ?thesis by (simp only: equals_key_domain [OF assms(1)])
qed

lemma key_without_domain:
  assumes "xAxisDomain s = None"
  shows "xAxisDomain (handleKeyDown n ''ArrowLeft'' s) = None"
    and "xAxisDomain (handleKeyDown n ''ArrowRight'' s) = None"
    and "xAxisDomain (handleKeyDown n ''+'' s) = None"
    and "xAxisDomain (handleKeyDown n ''='' s) = None"
    and "xAxisDomain (handleKeyDown n ''-'' s) = None"
    and "xAxisDomain (handleKeyDown n ''_'' s) = None"
  using assms by (simp_all add: handleKeyDown_def)

lemma arrow_window:
  assumes "0 \<le> a" "a \<le> b" "b \<le> real n - 1" "5 \<le> b - a"
  shows "0 \<le> max 0 (a - (b - a) * 0.1)" "max 0 (a - (b - a) * 0.1) \<le> a"
    "b \<le> min (real n - 1) (b + (b - a) * 0.1)" "min (real n - 1) (b + (b - a) * 0.1) \<le> real n - 1"
  using assms by (simp_all add: max_def min_def)


lemma arrowLeft_inv:
  assumes "domainInv n (xAxisDomain s)"
  shows "domainInv n (xAxisDomain (handleKeyDown n ''ArrowLeft'' s))"
proof (cases "xAxisDomain s")
  case None
  then show ?thesis using assms by (simp add: key_without_domain)
next
  case (Some d)
  obtain a b where d: "d = (a, b)" by (cases d)
  have dom: "xAxisDomain s = Some (a, b)" using Some d by simp
  have inv: "0 \<le> a" "a \<le> b" "b \<le> real n - 1" "5 \<le> b - a"
    using assms by (simp_all add: dom domainInv_Some)
  define st where "st = max 0 (a - (b - a) * 0.1)"
  have st: "0 \<le> st" "st \<le> a"
    unfolding st_def using arrow_window [OF inv] by blast+
  then have fits: "st + (b - a) \<le> real n - 1" using inv by linarith
  have "xAxisDomain (handleKeyDown n ''ArrowLeft'' s) = Some (st, st + (b - a))"
    using fits unfolding arrowLeft_domain [OF dom] st_def by (simp only: if_True)
  moreover have "domainInv n (Some (st, st + (b - a)))"
    unfolding domainInv_Some using st fits inv by linarith
  ultimately show ?thesis by (simp only:)
qed

lemma arrowRight_inv:
  assumes "domainInv n (xAxisDomain s)"
  shows "domainInv n (xAxisDomain (handleKeyDown n ''ArrowRight'' s))"
proof (cases "xAxisDomain s")
  case None
  then show ?thesis using assms by (simp add: key_without_domain)
next
  case (Some d)
  obtain a b where d: "d = (a, b)" by (cases d)
  have dom: "xAxisDomain s = Some (a, b)" using Some d by simp
  have inv: "0 \<le> a" "a \<le> b" "b \<le> real n - 1" "5 \<le> b - a"
    using assms by (simp_all add: dom domainInv_Some)
  define en where "en = min (real n - 1) (b + (b - a) * 0.1)"
  have en: "b \<le> en" "en \<le> real n - 1"
    unfolding en_def using arrow_window [OF inv] by blast+
  then have fits: "en - (b - a) \<ge> 0" using inv by linarith
  have "xAxisDomain (handleKeyDown n ''ArrowRight'' s) = Some (en - (b - a), en)"
    using fits unfolding arrowRight_domain [OF dom] en_def by (simp only: if_True)
  moreover have "domainInv n (Some (en - (b - a), en))"
    unfolding domainInv_Some using en fits inv by linarith
  ultimately show ?thesis by (simp only:)
qed

lemma keyZoomOut_bounds:
  "(a + b) / 2 - (b - a) * 1.2 / 2 = a - (b - a) / 10"
  "(a + b) / 2 + (b - a) * 1.2 / 2 = b + (b - a) / 10"
  for a b :: real
  by (simp_all add: field_simps)


lemma zoomOut_window_inv:
  assumes "0 \<le> a" "a \<le> b" "b \<le> real n - 1" "5 \<le> b - a"
  shows "domainInv n (Some (max 0 ((a + b) / 2 - (b - a) * 1.2 / 2),
                            min (real n - 1) ((a + b) / 2 + (b - a) * 1.2 / 2)))"
proof -
  define w where "w = (b - a) / 10"
  have w: "0 \<le> w" using assms by (simp add: w_def)
  have "domainInv n (Some (max 0 (a - w), min (real n - 1) (b + w)))"
    unfolding domainInv_Some max_def min_def using assms w by (simp; linarith)
  then show ?thesis by (simp only: keyZoomOut_bounds w_def)
qed

lemma zoomOut_inv:
  assumes "domainInv n (xAxisDomain s)" and key: "key = ''-'' \<or> key = ''_''"
  shows "domainInv n (xAxisDomain (handleKeyDown n key s))"
proof (cases "xAxisDomain s")
  case None
  then show ?thesis using assms by (auto simp add: key_without_domain)
next
  case (Some d)
  obtain a b where d: "d = (a, b)" by (cases d)
  have dom: "xAxisDomain s = Some (a, b)" using Some d by simp
  have "0 \<le> a" "a \<le> b" "b \<le> real n - 1" "5 \<le> b - a"
    using assms by (simp_all add: dom domainInv_Some)
  then show ?thesis
    unfolding zoomOut_domain [OF dom key] by (rule zoomOut_window_inv)
qed

lemma keyZoomIn_bounds:
  "(a + b) / 2 - (b - a) * 0.8 / 2 = a + (b - a) / 10"
  "(a + b) / 2 + (b - a) * 0.8 / 2 = b - (b - a) / 10"
  for a b :: real
  by (simp_all add: field_simps)


lemma zoomIn_window_in_range:
  assumes "0 \<le> a" "a \<le> b" "b \<le> real n - 1"
  shows "domainInRange n (Some (max 0 ((a + b) / 2 - (b - a) * 0.8 / 2),
                                min (real n - 1) ((a + b) / 2 + (b - a) * 0.8 / 2)))"
proof -
  define w where "w = (b - a) / 10"
  have w: "0 \<le> w" "2 * w \<le> b - a" using assms by (simp_all add: w_def)
  have "domainInRange n (Some (max 0 (a + w), min (real n - 1) (b - w)))"
    unfolding domainInRange_Some max_def min_def using assms w by (simp; linarith)
  then show ?thesis by (simp only: keyZoomIn_bounds w_def)
qed

lemma wheel_window_in_range:
  assumes n: "1 \<le> n" and r: "5 \<le> r"
  shows "domainInRange n (Some (if min (real n - 1) (max 0 x + r) = real n - 1
                                then max 0 (min (real n - 1) (max 0 x + r) - r) else max 0 x,
                                min (real n - 1) (max 0 x + r)))"
proof (cases "real n - 1 \<le> max 0 x + r")
  case True
  then have e: "min (real n - 1) (max 0 x + r) = real n - 1" by simp
  have "0 \<le> real n - 1" using n by simp
  then show ?thesis
    using r by (cases "0 \<le> real n - 1 - r") (simp_all add: e domainInRange_Some)
next
  case False
  then have e: "min (real n - 1) (max 0 x + r) = max 0 x + r" by simp
  have "max 0 x + r \<noteq> real n - 1" using False by simp
  then show ?thesis
    using r False by (simp add: e domainInRange_Some)
qed

lemma handleWheel_in_range:
  assumes "1 \<le> n"
  shows "domainInRange n (xAxisDomain (handleWheel n e s))"
proof -
  define start where "start = (case xAxisDomain s of Some d \<Rightarrow> fst d | None \<Rightarrow> 0)"
  define range where
    "range = (case xAxisDomain s of Some d \<Rightarrow> snd d | None \<Rightarrow> real n - 1) - start"
  define r where "r = max 5 (min (real n) (range * (if deltaY e > 0 then 1.1 else 0.9)))"
  define x where "x = start + (range - r) * (offsetX e / targetClientWidth e)"
  have n0: "n \<noteq> 0" using assms by simp
  have "handleWheel n e s
        = s\<lparr>xAxisDomain := Some (if min (real n - 1) (max 0 x + r) = real n - 1
                    then max 0 (min (real n - 1) (max 0 x + r) - r) else max 0 x,
                    min (real n - 1) (max 0 x + r))\<rparr>"
    by (simp only: handleWheel_def Let_def n0 if_False x_def r_def range_def start_def)
  then have eq: "xAxisDomain (handleWheel n e s)
            = Some (if min (real n - 1) (max 0 x + r) = real n - 1
                    then max 0 (min (real n - 1) (max 0 x + r) - r) else max 0 x,
                    min (real n - 1) (max 0 x + r))"
    by (simp only: select_update_domain)
  have "5 \<le> r" by (simp add: r_def)
  then show ?thesis
    unfolding eq by (rule wheel_window_in_range [OF assms])
qed

lemma dragPan_window_in_range:
  assumes "0 \<le> a" "a \<le> b" "b \<le> real n - 1"
  shows "domainInRange n (Some
      (if max 0 (a + m) = 0 then (max 0 (a + m), min (real n - 1) (max 0 (a + m) + (b - a)))
       else if min (real n - 1) (b + m) = real n - 1
         then (max 0 (min (real n - 1) (b + m) - (b - a)), min (real n - 1) (b + m))
       else (max 0 (a + m), min (real n - 1) (b + m))))"
proof (cases "a + m \<le> 0")
  case True
  then have z: "max 0 (a + m) = 0" by (simp add: max_def)
  have w: "min (real n - 1) (0 + (b - a)) = b - a"
    using assms by (simp add: min_def)
  have "domainInRange n (Some (0, b - a))"
    unfolding domainInRange_Some using assms by linarith
  then show ?thesis by (simp only: z w simp_thms if_True)
next
  case False
  then have s: "max 0 (a + m) = a + m" by (simp add: max_def)
  have ne: "a + m \<noteq> 0" using False by linarith
  show ?thesis
  proof (cases "real n - 1 \<le> b + m")
    case True
    then have e: "min (real n - 1) (b + m) = real n - 1" by (simp add: min_def)
    have st: "max 0 (real n - 1 - (b - a)) = real n - 1 - (b - a)"
      using assms by (simp add: max_def)
    have "domainInRange n (Some (real n - 1 - (b - a), real n - 1))"
      unfolding domainInRange_Some using assms by linarith
    then show ?thesis by (simp only: s ne e st simp_thms if_False if_True)
  next
    case hi: False
    then have e: "min (real n - 1) (b + m) = b + m" by (simp add: min_def)
    have ne': "b + m \<noteq> real n - 1" using hi by linarith
    have "domainInRange n (Some (a + m, b + m))"
      unfolding domainInRange_Some using assms False hi by linarith
    then show ?thesis by (simp only: s ne e ne' simp_thms if_False)
  qed
qed

lemma dragPan_in_range:
  assumes "domainInRange n (Some d)"
  shows "domainInRange n (Some (dragPan n e startX d))"
proof -
  obtain a b where d: "d = (a, b)" by (cases d)
  have inv: "0 \<le> a" "a \<le> b" "b \<le> real n - 1"
    using assms by (simp_all add: d domainInRange_Some)
  define m where "m = (startX - clientX e)
       / (case chartRef e of None \<Rightarrow> 1 | Some el \<Rightarrow> if clientWidth el = 0 then 1 else clientWidth el)
       * (b - a)"
  have eq: "dragPan n e startX d =
      (if max 0 (a + m) = 0 then (max 0 (a + m), min (real n - 1) (max 0 (a + m) + (b - a)))
       else if min (real n - 1) (b + m) = real n - 1
         then (max 0 (min (real n - 1) (b + m) - (b - a)), min (real n - 1) (b + m))
       else (max 0 (a + m), min (real n - 1) (b + m)))"
    by (simp only: dragPan_def d Let_def m_def fst_conv snd_conv)
  show ?thesis
    unfolding eq by (rule dragPan_window_in_range [OF inv])
qed

lemma handleMouseMove_in_range:
  assumes "domainInRange n (xAxisDomain s)"
  shows "domainInRange n (xAxisDomain (handleMouseMove n e s))"
  using handleMouseMove_domain [of n e s] assms dragPan_in_range by auto

lemma arrow_window_in_range:
  assumes "0 \<le> a" "a \<le> b" "b \<le> real n - 1"
  shows "0 \<le> max 0 (a - (b - a) * 0.1)" "max 0 (a - (b - a) * 0.1) \<le> a"
    "b \<le> min (real n - 1) (b + (b - a) * 0.1)" "min (real n - 1) (b + (b - a) * 0.1) \<le> real n - 1"
  using assms by (simp_all add: max_def min_def)

lemma arrowLeft_in_range:
  assumes "domainInRange n (xAxisDomain s)"
  shows "domainInRange n (xAxisDomain (handleKeyDown n ''ArrowLeft'' s))"
proof (cases "xAxisDomain s")
  case None
  then show ?thesis using assms by (simp add: key_without_domain)
next
  case (Some d)
  obtain a b where d: "d = (a, b)" by (cases d)
  have dom: "xAxisDomain s = Some (a, b)" using Some d by simp
  have inv: "0 \<le> a" "a \<le> b" "b \<le> real n - 1"
    using assms by (simp_all add: dom domainInRange_Some)
  define st where "st = max 0 (a - (b - a) * 0.1)"
  have st: "0 \<le> st" "st \<le> a"
    unfolding st_def using arrow_window_in_range [OF inv] by blast+
  then have fits: "st + (b - a) \<le> real n - 1" using inv by linarith
  have "xAxisDomain (handleKeyDown n ''ArrowLeft'' s) = Some (st, st + (b - a))"
    using fits unfolding arrowLeft_domain [OF dom] st_def by (simp only: if_True)
  moreover have "domainInRange n (Some (st, st + (b - a)))"
    unfolding domainInRange_Some using st fits inv by linarith
  ultimately show ?thesis by (simp only:)
qed

lemma arrowRight_in_range:
  assumes "domainInRange n (xAxisDomain s)"
  shows "domainInRange n (xAxisDomain (handleKeyDown n ''ArrowRight'' s))"
proof (cases "xAxisDomain s")
  case None
  then show ?thesis using assms by (simp add: key_without_domain)
next
  case (Some d)
  obtain a b where d: "d = (a, b)" by (cases d)
  have dom: "xAxisDomain s = Some (a, b)" using Some d by simp
  have inv: "0 \<le> a" "a \<le> b" "b \<le> real n - 1"
    using assms by (simp_all add: dom domainInRange_Some)
  define en where "en = min (real n - 1) (b + (b - a) * 0.1)"
  have en: "b \<le> en" "en \<le> real n - 1"
    unfolding en_def using arrow_window_in_range [OF inv] by blast+
  then have fits: "en - (b - a) \<ge> 0" using inv by linarith
  have "xAxisDomain (handleKeyDown n ''ArrowRight'' s) = Some (en - (b - a), en)"
    using fits unfolding arrowRight_domain [OF dom] en_def by (simp only: if_True)
  moreover have "domainInRange n (Some (en - (b - a), en))"
    unfolding domainInRange_Some using en fits inv by linarith
  ultimately show ?thesis by (simp only:)
qed

lemma zoomOut_window_in_range:
  assumes "0 \<le> a" "a \<le> b" "b \<le> real n - 1"
  shows "domainInRange n (Some (max 0 ((a + b) / 2 - (b - a) * 1.2 / 2),
                                min (real n - 1) ((a + b) / 2 + (b - a) * 1.2 / 2)))"
proof -
  define w where "w = (b - a) / 10"
  have w: "0 \<le> w" using assms by (simp add: w_def)
  have "domainInRange n (Some (max 0 (a - w), min (real n - 1) (b + w)))"
    unfolding domainInRange_Some max_def min_def using assms w by (simp; linarith)
  then show ?thesis by (simp only: keyZoomOut_bounds w_def)
qed

lemma zoomOut_in_range:
  assumes "domainInRange n (xAxisDomain s)" and key: "key = ''-'' \<or> key = ''_''"
  shows "domainInRange n (xAxisDomain (handleKeyDown n key s))"
proof (cases "xAxisDomain s")
  case None
  then show ?thesis using assms by (auto simp add: key_without_domain)
next
  case (Some d)
  obtain a b where d: "d = (a, b)" by (cases d)
  have dom: "xAxisDomain s = Some (a, b)" using Some d by simp
  have "0 \<le> a" "a \<le> b" "b \<le> real n - 1"
    using assms by (simp_all add: dom domainInRange_Some)
  then show ?thesis
    unfolding zoomOut_domain [OF dom key] by (rule zoomOut_window_in_range)
qed

lemma zoomIn_keeps_range:
  assumes "domainInRange n (xAxisDomain s)" and key: "key = ''+'' \<or> key = ''=''"
  shows "domainInRange n (xAxisDomain (handleKeyDown n key s))"
proof (cases "xAxisDomain s")
  case None
  then show ?thesis using assms by (auto simp add: key_without_domain)
next
  case (Some d)
  obtain a b where d: "d = (a, b)" by (cases d)
  have dom: "xAxisDomain s = Some (a, b)" using Some d by simp
  have "0 \<le> a" "a \<le> b" "b \<le> real n - 1"
    using assms by (simp_all add: dom domainInRange_Some)
  then show ?thesis
    unfolding zoomIn_domain [OF dom key] by (rule zoomIn_window_in_range)
qed

lemma wheelIn_small:
  "xAxisDomain (handleWheel 3 wheelInLeft initialState) = Some (0, 2)"
  by (simp add: handleWheel_def wheelInLeft_def initialState_def Let_def)

lemma wheelIn_seven:
  "xAxisDomain (handleWheel 7 wheelInLeft initialState) = Some (0, 27 / 5)"
  by (simp add: handleWheel_def wheelInLeft_def initialState_def Let_def)

lemma plus_after_wheelIn_seven:
  "xAxisDomain (handleKeyDown 7 ''+'' (handleWheel 7 wheelInLeft initialState))
   = Some (27 / 50, 243 / 50)"
  by (simp add: plus_key_domain [OF wheelIn_seven])

lemma wheelOut_zoomed:
  "xAxisDomain (handleWheel 200 wheelOut zoomed) = Some (45, 155)"
  by (simp add: handleWheel_def wheelOut_def zoomed_def initialState_def Let_def)

lemma wheelIn_zoomed:
  "xAxisDomain (handleWheel 200 wheelIn zoomed) = Some (55, 145)"
  by (simp add: handleWheel_def wheelIn_def zoomed_def initialState_def Let_def)

text \<open>Without bars no domain lies within the bars, and the wheel leaves the state as it is.\<close>

lemma no_bars_no_domain:
  "\<not> domainInRange 0 d" "handleWheel 0 w s = s"
  by (auto simp add: domainInRange_def handleWheel_def)

text \<open>
  C1, as the source has it. With at least one bar the domain after a wheel zoom satisfies
  \<open>0 \<le> start \<le> end \<le> N - 1\<close>, and with at least six bars also \<open>end - start \<ge> 5\<close>, whatever the
  domain was before. A pointer move (the pan of a drag), an arrow key and a keyboard zoom
  in or out keep \<open>0 \<le> start \<le> end \<le> N - 1\<close>; a pointer move, an arrow key and a keyboard
  zoom out also keep \<open>end - start \<ge> 5\<close>. An unset domain stands for the full range.
\<close>

theorem pan_zoom_keep_domain_invariant:
  "(1 \<le> n \<longrightarrow> domainInRange n (xAxisDomain (handleWheel n w s)))
   \<and> (6 \<le> n \<longrightarrow> domainInv n (xAxisDomain (handleWheel n w s)))
   \<and> (domainInRange n (xAxisDomain s) \<longrightarrow>
        domainInRange n (xAxisDomain (handleMouseMove n m s))
        \<and> domainInRange n (xAxisDomain (handleKeyDown n ''ArrowLeft'' s))
        \<and> domainInRange n (xAxisDomain (handleKeyDown n ''ArrowRight'' s))
        \<and> domainInRange n (xAxisDomain (handleKeyDown n ''+'' s))
        \<and> domainInRange n (xAxisDomain (handleKeyDown n ''='' s))
        \<and> domainInRange n (xAxisDomain (handleKeyDown n ''-'' s))
        \<and> domainInRange n (xAxisDomain (handleKeyDown n ''_'' s)))
   \<and> (domainInv n (xAxisDomain s) \<longrightarrow>
        domainInv n (xAxisDomain (handleMouseMove n m s))
        \<and> domainInv n (xAxisDomain (handleKeyDown n ''ArrowLeft'' s))
        \<and> domainInv n (xAxisDomain (handleKeyDown n ''ArrowRight'' s))
        \<and> domainInv n (xAxisDomain (handleKeyDown n ''-'' s))
        \<and> domainInv n (xAxisDomain (handleKeyDown n ''_'' s)))"
proof (intro conjI impI)
  assume "1 \<le> n"
  then show "domainInRange n (xAxisDomain (handleWheel n w s))"
    by (rule handleWheel_in_range)
next
  assume "6 \<le> n"
  then show "domainInv n (xAxisDomain (handleWheel n w s))"
    by (rule handleWheel_inv)
next
  assume r: "domainInRange n (xAxisDomain s)"
  show "domainInRange n (xAxisDomain (handleMouseMove n m s))"
    using r by (rule handleMouseMove_in_range)
  show "domainInRange n (xAxisDomain (handleKeyDown n ''ArrowLeft'' s))"
    using r by (rule arrowLeft_in_range)
  show "domainInRange n (xAxisDomain (handleKeyDown n ''ArrowRight'' s))"
    using r by (rule arrowRight_in_range)
  show "domainInRange n (xAxisDomain (handleKeyDown n ''+'' s))"
    using r by (rule zoomIn_keeps_range) simp
  show "domainInRange n (xAxisDomain (handleKeyDown n ''='' s))"
    using r by (rule zoomIn_keeps_range) simp
  show "domainInRange n (xAxisDomain (handleKeyDown n ''-'' s))"
    using r by (rule zoomOut_in_range) simp
  show "domainInRange n (xAxisDomain (handleKeyDown n ''_'' s))"
    using r by (rule zoomOut_in_range) simp
next
  assume i: "domainInv n (xAxisDomain s)"
  show "domainInv n (xAxisDomain (handleMouseMove n m s))"
    using i by (rule handleMouseMove_inv)
  show "domainInv n (xAxisDomain (handleKeyDown n ''ArrowLeft'' s))"
    using i by (rule arrowLeft_inv)
  show "domainInv n (xAxisDomain (handleKeyDown n ''ArrowRight'' s))"
    using i by (rule arrowRight_inv)
  show "domainInv n (xAxisDomain (handleKeyDown n ''-'' s))"
    using i by (rule zoomOut_inv) simp
  show "domainInv n (xAxisDomain (handleKeyDown n ''_'' s))"
    using i by (rule zoomOut_inv) simp
qed

theorem pan_zoom_keep_domain_invariant_witness:
  "(1::nat) \<le> 3
   \<and> xAxisDomain (handleWheel 3 wheelInLeft initialState) = Some (0, 2)
   \<and> domainInRange 3 (Some (0, 2))
   \<and> (6::nat) \<le> 200
   \<and> domainInRange 200 (xAxisDomain zoomed) \<and> domainInv 200 (xAxisDomain zoomed)
   \<and> xAxisDomain (handleWheel 200 wheelOut zoomed) = Some (45, 155)
   \<and> domainInv 200 (Some (45, 155))
   \<and> xAxisDomain (handleKeyDown 200 ''ArrowLeft'' zoomed) = Some (40, 140)
   \<and> domainInv 200 (Some (40, 140))
   \<and> xAxisDomain (handleKeyDown 200 ''+'' zoomed) = Some (60, 140)
   \<and> domainInRange 200 (Some (60, 140))"
proof -
  have n3: "(1::nat) \<le> 3" and n: "(6::nat) \<le> 200" by simp_all
  have dom: "xAxisDomain zoomed = Some (50, 150)"
    by (simp add: zoomed_def initialState_def)
  have inv: "domainInv 200 (xAxisDomain zoomed)"
    by (simp add: dom domainInv_Some)
  have rng: "domainInRange 200 (xAxisDomain zoomed)"
    by (simp add: dom domainInRange_Some)
  have left: "xAxisDomain (handleKeyDown 200 ''ArrowLeft'' zoomed) = Some (40, 140)"
    by (simp add: arrowLeft_domain [OF dom])
  have plus: "xAxisDomain (handleKeyDown 200 ''+'' zoomed) = Some (60, 140)"
    by (simp add: plus_key_domain [OF dom])
  note small = pan_zoom_keep_domain_invariant [of 3 wheelInLeft initialState "mouseAt 0 0"]
  note kept = pan_zoom_keep_domain_invariant [of 200 wheelOut zoomed "mouseAt 0 0"]
  have "domainInRange 3 (Some (0, 2))"
    using small n3 unfolding wheelIn_small by blast
  moreover have "domainInv 200 (Some (45, 155))"
    using kept n unfolding wheelOut_zoomed by blast
  moreover have "domainInv 200 (Some (40, 140))"
    using kept inv unfolding left by blast
  moreover have "domainInRange 200 (Some (60, 140))"
    using kept rng unfolding plus by blast
  ultimately show ?thesis
    using n3 n inv rng left plus wheelIn_small wheelOut_zoomed by (intro conjI)
qed

text \<open>
  C1 as it is stated fails at two places. With three bars no domain can be five wide,
  and the wheel leaves the domain at [0, 2]. With seven bars a wheel zoom in at the left
  edge gives [0, 5.4], which satisfies the invariant, and the key \<open>+\<close> then gives
  [0.54, 4.86], which is 4.32 wide.
\<close>

theorem zoom_breaks_minimum_window:
  "xAxisDomain (handleWheel 3 wheelInLeft initialState) = Some (0, 2)
   \<and> \<not> domainInv 3 (Some (0, 2))
   \<and> xAxisDomain (handleWheel 7 wheelInLeft initialState) = Some (0, 27 / 5)
   \<and> domainInv 7 (Some (0, 27 / 5))
   \<and> xAxisDomain (handleKeyDown 7 ''+'' (handleWheel 7 wheelInLeft initialState))
       = Some (27 / 50, 243 / 50)
   \<and> \<not> domainInv 7 (Some (27 / 50, 243 / 50))"
  by (simp add: wheelIn_small wheelIn_seven plus_after_wheelIn_seven domainInv_Some)

section \<open>A zoom in followed by the reciprocal zoom out\<close>

text \<open>\<open>handleWheel\<close> sets the domain to the zoom step of its own factor and anchor ratio.\<close>

lemma handleWheel_zoomStep:
  assumes "n \<noteq> 0"
  shows "xAxisDomain (handleWheel n e s)
         = Some (zoomStep n (if deltaY e > 0 then 1.1 else 0.9)
                   (offsetX e / targetClientWidth e) (xAxisDomain s))"
  using assms by (simp only: handleWheel_def zoomStep_def Let_def if_False select_update_domain)

text \<open>
  Away from the clamping boundaries the zoom step moves the start by the anchor ratio's
  share of the change in width, and scales the width by the factor.
\<close>

lemma zoomStep_unclamped:
  assumes "zoomUnclamped n f c d"
  shows "zoomStep n f c d
         = (fst (domainBounds n d) + (domainWidth n d - domainWidth n d * f) * c,
            fst (domainBounds n d) + (domainWidth n d - domainWidth n d * f) * c
              + domainWidth n d * f)"
proof -
  define start where "start = (case d of Some p \<Rightarrow> fst p | None \<Rightarrow> 0)"
  define range where "range = (case d of Some p \<Rightarrow> snd p | None \<Rightarrow> real n - 1) - start"
  define r where "r = range * f"
  define x where "x = start + (range - r) * c"
  have b: "fst (domainBounds n d) = start" "domainWidth n d = range"
    by (simp_all add: start_def range_def domainWidth_def domainBounds_def split: option.split)
  have "5 \<le> r \<and> r \<le> real n \<and> 0 \<le> x \<and> x + r \<le> real n - 1"
    using assms unfolding zoomUnclamped_def Let_def b r_def [symmetric] x_def [symmetric] .
  then have un: "5 \<le> r" "r \<le> real n" "0 \<le> x" "x + r \<le> real n - 1" by blast+
  have r': "max 5 (min (real n) r) = r" using un by simp
  have x': "max 0 x = x" using un by simp
  have e': "min (real n - 1) (x + r) = x + r" using un by simp
  have st: "max 0 (x + r - r) = x" using un by simp
  have "zoomStep n f c d = (if x + r = real n - 1 then x else x, x + r)"
    unfolding zoomStep_def Let_def start_def [symmetric] range_def [symmetric]
      r_def [symmetric] r' x_def [symmetric] x' e' st ..
  then show ?thesis
    unfolding b x_def r_def by (simp only: if_cancel)
qed

lemma zoomStep_unclamped_width:
  assumes "zoomUnclamped n f c d"
  shows "domainWidth n (Some (zoomStep n f c d)) = domainWidth n d * f"
  unfolding zoomStep_unclamped [OF assms] by (simp add: domainWidth_def domainBounds_def)

text \<open>
  The two factors of \<open>handleWheel\<close> are 0.9 and 1.1: away from the clamping boundaries a
  wheel zoom in followed by a wheel zoom out leaves the domain 0.99 times as wide as it
  was.
\<close>

lemma wheel_in_then_out_width:
  assumes n: "n \<noteq> 0" and zin: "deltaY zin \<le> 0" and zout: "0 < deltaY zout"
    and first: "zoomUnclamped n 0.9 (offsetX zin / targetClientWidth zin) (xAxisDomain s)"
    and second: "zoomUnclamped n 1.1 (offsetX zout / targetClientWidth zout)
                   (xAxisDomain (handleWheel n zin s))"
  shows "domainWidth n (xAxisDomain (handleWheel n zout (handleWheel n zin s)))
         = 0.99 * domainWidth n (xAxisDomain s)"
proof -
  have i: "xAxisDomain (handleWheel n zin s)
           = Some (zoomStep n 0.9 (offsetX zin / targetClientWidth zin) (xAxisDomain s))"
    using zin handleWheel_zoomStep [OF n, of zin s] by simp
  have o: "xAxisDomain (handleWheel n zout (handleWheel n zin s))
           = Some (zoomStep n 1.1 (offsetX zout / targetClientWidth zout)
                     (xAxisDomain (handleWheel n zin s)))"
    using zout handleWheel_zoomStep [OF n, of zout "handleWheel n zin s"] by simp
  have "domainWidth n (xAxisDomain (handleWheel n zout (handleWheel n zin s)))
        = domainWidth n (xAxisDomain (handleWheel n zin s)) * 1.1"
    unfolding o by (rule zoomStep_unclamped_width [OF second])
  also have "domainWidth n (xAxisDomain (handleWheel n zin s))
             = domainWidth n (xAxisDomain s) * 0.9"
    unfolding i by (rule zoomStep_unclamped_width [OF first])
  finally show ?thesis by simp
qed




end
